theory Spec2Isabelle
  imports Main "HOL-Library.Word" "HOL-Library.Sublist"
begin

section \<open>Strings of the host language\<close>

text \<open>
  A string of the program is a sequence of 16-bit code units. Literals of the source are
  written \<open>js ''...''\<close>; all of them are ASCII.
\<close>

type_synonym jschar = "16 word"
type_synonym jsstring = "jschar list"

definition js :: "string \<Rightarrow> jsstring" where
  "js s = map (\<lambda>c. of_nat (of_char c)) s"

text \<open>
  The code units removed by \<open>String.prototype.trim\<close> and matched by the regular
  expression class \<open>\s\<close>: the white space and line terminator code points.
\<close>

definition isWhiteSpace :: "jschar \<Rightarrow> bool" where
  "isWhiteSpace c =
     (c = 0x09 \<or> c = 0x0A \<or> c = 0x0B \<or> c = 0x0C \<or> c = 0x0D \<or> c = 0x20 \<or> c = 0xA0
      \<or> c = 0x1680 \<or> (0x2000 \<le> c \<and> c \<le> 0x200A) \<or> c = 0x2028 \<or> c = 0x2029
      \<or> c = 0x202F \<or> c = 0x205F \<or> c = 0x3000 \<or> c = 0xFEFF)"

text \<open>The class \<open>\d\<close>: the ten ASCII digits.\<close>

definition isDigit :: "jschar \<Rightarrow> bool" where
  "isDigit c = (0x30 \<le> c \<and> c \<le> 0x39)"

definition trim :: "jsstring \<Rightarrow> jsstring" where
  "trim s = rev (dropWhile isWhiteSpace (rev (dropWhile isWhiteSpace s)))"

text \<open>
  A string or an absent value used as a condition (\<open>if (x)\<close>, \<open>!x\<close>, \<open>x || y\<close>) is true
  when it is present and not the empty string.
\<close>

fun truthy :: "jsstring option \<Rightarrow> bool" where
  "truthy None = False"
| "truthy (Some s) = (s \<noteq> [])"

fun join :: "jsstring \<Rightarrow> jsstring list \<Rightarrow> jsstring" where
  "join sep [] = []"
| "join sep [x] = x"
| "join sep (x # y # ys) = x @ sep @ join sep (y # ys)"

subsection \<open>Splitting at a separator string\<close>

text \<open>
  \<open>indexOf sep s\<close> is the least index at which \<open>sep\<close> occurs in \<open>s\<close>. \<open>jsSplit\<close> is
  \<open>String.prototype.split\<close> with a string separator: it cuts at each occurrence found
  from the end of the previous one.
\<close>

fun indexOf :: "jsstring \<Rightarrow> jsstring \<Rightarrow> nat option" where
  "indexOf sep [] = (if sep = [] then Some 0 else None)"
| "indexOf sep (c # cs) =
     (if prefix sep (c # cs) then Some 0 else map_option Suc (indexOf sep cs))"

function splitFrom :: "jsstring \<Rightarrow> jsstring \<Rightarrow> jsstring list" where
  "splitFrom sep s =
     (if sep = [] then [s]
      else case indexOf sep s of
             None \<Rightarrow> [s]
           | Some j \<Rightarrow> take j s # splitFrom sep (drop (j + length sep) s))"
  by pat_completeness auto
termination
proof (relation "measure (\<lambda>(sep, s). length s)")
  show "wf (measure (\<lambda>(sep, s). length s))" by simp
next
  fix sep s :: jsstring and j
  assume sep: "sep \<noteq> []" and found: "indexOf sep s = Some j"
  have bound: "k + length sep \<le> length t" if "indexOf sep t = Some k" for t k
    using that
  proof (induction t arbitrary: k)
    case Nil
    then show ?case by (simp split: if_splits)
  next
    case (Cons c cs)
    show ?case
    proof (cases "prefix sep (c # cs)")
      case True
      then have "length sep \<le> length (c # cs)" by (rule prefix_length_le)
      with True Cons.prems show ?thesis by simp
    next
      case False
      with Cons.prems obtain m where "indexOf sep cs = Some m" "k = Suc m" by auto
      with Cons.IH show ?thesis by simp
    qed
  qed
  from sep bound [OF found] have "length s - (j + length sep) < length s"
    by (cases sep) simp_all
  then show "((sep, drop (j + length sep) s), (sep, s)) \<in> measure (\<lambda>(sep, s). length s)"
    by simp
qed

declare splitFrom.simps [simp del]

definition jsSplit :: "jsstring \<Rightarrow> jsstring \<Rightarrow> jsstring list" where
  "jsSplit sep s = (if sep = [] then map (\<lambda>c. [c]) s else splitFrom sep s)"

subsection \<open>The regular expressions of the source\<close>

text \<open>
  The source uses three regular expressions, built from literals, character classes,
  a greedy repetition of a class with a lower bound, sequence and alternative.
  \<open>rmatch r s\<close> lists the lengths of the matches of \<open>r\<close> at the start of \<open>s\<close>, in the
  order in which a backtracking matcher tries them.
\<close>

datatype regex =
    Lit jsstring
  | Class "jschar \<Rightarrow> bool"
  | AtLeast nat "jschar \<Rightarrow> bool"
  | Seq regex regex
  | Alt regex regex

fun rmatch :: "regex \<Rightarrow> jsstring \<Rightarrow> nat list" where
  "rmatch (Lit l) s = (if prefix l s then [length l] else [])"
| "rmatch (Class P) s = (case s of [] \<Rightarrow> [] | c # _ \<Rightarrow> if P c then [1] else [])"
| "rmatch (AtLeast n P) s = rev [n ..< Suc (length (takeWhile P s))]"
| "rmatch (Seq a b) s = concat (map (\<lambda>i. map (\<lambda>j. i + j) (rmatch b (drop i s))) (rmatch a s))"
| "rmatch (Alt a b) s = rmatch a s @ rmatch b s"

text \<open>\<open>/^r/.test(s)\<close>: some match of \<open>r\<close> starts at index 0.\<close>

definition testAtStart :: "regex \<Rightarrow> jsstring \<Rightarrow> bool" where
  "testAtStart r s = (rmatch r s \<noteq> [])"

text \<open>
  \<open>String.prototype.split\<close> with a regular expression. \<open>acc\<close> holds, reversed, the code
  units between the end of the last separator and the current position; a match is
  tried at each position, and an empty match right at the end of the last separator is
  skipped. No match is tried at the end of the string.
\<close>

function splitRegexFrom :: "regex \<Rightarrow> jsstring \<Rightarrow> jsstring \<Rightarrow> jsstring list" where
  "splitRegexFrom r acc [] = [rev acc]"
| "splitRegexFrom r acc (c # cs) =
     (case rmatch r (c # cs) of
        [] \<Rightarrow> splitRegexFrom r (c # acc) cs
      | n # _ \<Rightarrow>
          if n = 0 \<and> acc = [] then splitRegexFrom r (c # acc) cs
          else rev acc # splitRegexFrom r [] (drop n (c # cs)))"
  by pat_completeness auto
termination
  by (relation "measures [\<lambda>(r, acc, s). length s, \<lambda>(r, acc, s). length acc]") auto

definition jsSplitRegex :: "regex \<Rightarrow> jsstring \<Rightarrow> jsstring list" where
  "jsSplitRegex r s =
     (if s = [] then (if rmatch r [] \<noteq> [] then [] else [[]]) else splitRegexFrom r [] s)"

section \<open>The parser\<close>

record Header =
  date :: "jsstring option"
  title :: "jsstring option"

record TimelineEntry = Header +
  body :: jsstring

definition parseHeader :: "jsstring \<Rightarrow> Header" where
  "parseHeader headerLine =
     (let pipeParts = jsSplit (js ''|'') headerLine in
      if length pipeParts \<ge> 2 then
        (let d = trim (case pipeParts of [] \<Rightarrow> [] | p # _ \<Rightarrow> p);
             t = trim (join (js ''|'') (drop 1 pipeParts))
         in \<lparr>date = (if length d > 0 then Some d else None),
             title = (if length t > 0 then Some t else None)\<rparr>)
      else
        (let dashParts = jsSplit (js '' - '') headerLine in
         if length dashParts \<ge> 2 then
           (let d = trim (case dashParts of [] \<Rightarrow> [] | p # _ \<Rightarrow> p);
                t = trim (join (js '' - '') (drop 1 dashParts))
            in \<lparr>date = (if length d > 0 then Some d else None),
                title = (if length t > 0 then Some t else None)\<rparr>)
         else
           (let header = trim headerLine
            in \<lparr>date = None, title = (if length header > 0 then Some header else None)\<rparr>)))"

text \<open>The regular expression \<open>/^(```|>\s+|[-*+]\s+|\d+\.)/\<close> of \<open>isLikelyBodyStart\<close>.\<close>

definition bodyStartRegex :: regex where
  "bodyStartRegex =
     Alt (Lit (js ''```''))
    (Alt (Seq (Lit (js ''>'')) (AtLeast 1 isWhiteSpace))
    (Alt (Seq (Class (\<lambda>c. c \<in> set (js ''-*+''))) (AtLeast 1 isWhiteSpace))
         (Seq (AtLeast 1 isDigit) (Lit (js ''.'')))))"

definition isLikelyBodyStart :: "jsstring \<Rightarrow> bool" where
  "isLikelyBodyStart line =
     (let trimmed = trim line in
      if length trimmed = 0 then True
      else if testAtStart bodyStartRegex trimmed then True
      else False)"

text \<open>The regular expressions \<open>/\n{2,}/\<close> and \<open>/\n/\<close> of \<open>parseTimelineSource\<close>.\<close>

definition blankLinesRegex :: regex where
  "blankLinesRegex = AtLeast 2 (\<lambda>c. c = 0x0A)"

definition newlineRegex :: regex where
  "newlineRegex = Lit (js ''\<newline>'')"

text \<open>One iteration of the loop over the blocks: the entry pushed for \<open>block\<close>.\<close>

definition blockEntry :: "jsstring \<Rightarrow> TimelineEntry" where
  "blockEntry block =
     (let lines = jsSplitRegex newlineRegex block;
          headerLine = (case lines of [] \<Rightarrow> [] | l # _ \<Rightarrow> trim l);
          bodyLines = trim (join (js ''\<newline>'') (drop 1 lines));
          headerIsBody = isLikelyBodyStart headerLine
      in if headerIsBody then \<lparr>date = None, title = None, body = block\<rparr>
         else
           (let h = parseHeader headerLine;
                b = (if length bodyLines > 0 then bodyLines else [])
            in if \<not> truthy (date h) \<and> \<not> truthy (title h) \<and> length b = 0
               then \<lparr>date = None, title = None, body = block\<rparr>
               else \<lparr>date = date h, title = title h, body = b\<rparr>))"

fun parseBlocks :: "jsstring list \<Rightarrow> TimelineEntry list" where
  "parseBlocks [] = []"
| "parseBlocks (block # blocks) = blockEntry block # parseBlocks blocks"

definition parseTimelineSource :: "jsstring \<Rightarrow> TimelineEntry list" where
  "parseTimelineSource source =
     (let trimmedSource = trim source in
      if length trimmedSource = 0 then []
      else
        (let blocks = filter (\<lambda>b. b \<noteq> []) (map trim (jsSplitRegex blankLinesRegex trimmedSource))
         in parseBlocks blocks))"

section \<open>Escaping\<close>

text \<open>
  \<open>s.replace(/p/g, r)\<close> for a pattern \<open>p\<close> that is a literal string: every occurrence of
  \<open>pat\<close>, found from left to right after the previous one, is replaced by \<open>rep\<close>.
\<close>

function replaceAll :: "jsstring \<Rightarrow> jsstring \<Rightarrow> jsstring \<Rightarrow> jsstring" where
  "replaceAll pat rep [] = []"
| "replaceAll pat rep (c # cs) =
     (if pat \<noteq> [] \<and> prefix pat (c # cs)
      then rep @ replaceAll pat rep (drop (length pat) (c # cs))
      else c # replaceAll pat rep cs)"
  by pat_completeness auto
termination
  by (relation "measure (\<lambda>(pat, rep, s). length s)") auto

text \<open>The code unit \<open>0x27\<close> is the apostrophe.\<close>

definition escapeHtml :: \<open>jsstring \<Rightarrow> jsstring\<close> where
  \<open>escapeHtml value =
     replaceAll [0x27] (js ''&#39;'')
      (replaceAll (js ''"'') (js ''&quot;'')
        (replaceAll (js ''>'') (js ''&gt;'')
          (replaceAll (js ''<'') (js ''&lt;'')
            (replaceAll (js ''&'') (js ''&amp;'') value))))\<close>

section \<open>Rendering\<close>

record TimelinePluginSettings =
  showMarkers :: bool
  defaultDateLabel :: jsstring

text \<open>
  The host's \<open>MarkdownRenderer.renderMarkdown\<close> is not part of the program. It is a
  parameter: a function of the markdown text and the source path whose value is \<open>None\<close>
  when the rendering fails (the promise is rejected, and so is the promise of the renderer
  that awaits it) and \<open>Some r\<close> when it succeeds, where \<open>r\<close> is what the host put
  into the target element.
\<close>

type_synonym 'r renderMarkdown = "jsstring \<Rightarrow> jsstring \<Rightarrow> 'r option"

text \<open>
  The date shown for an entry:
  \<open>entry.date ?? (fallbackDate.length > 0 ? fallbackDate : undefined)\<close>.
\<close>

definition dateText :: "TimelinePluginSettings \<Rightarrow> TimelineEntry \<Rightarrow> jsstring option" where
  "dateText settings entry =
     (let fallbackDate = trim (defaultDateLabel settings) in
      case date entry of
        Some d \<Rightarrow> Some d
      | None \<Rightarrow> (if length fallbackDate > 0 then Some fallbackDate else None))"

subsection \<open>The static renderer\<close>

text \<open>
  The variable \<open>html\<close> of \<open>renderTimelineHtml\<close> grows by appending; it is modelled as
  the list of the appended segments, in order, and the returned string is their
  concatenation. For the host's renderer, \<open>r\<close> is the \<open>innerHTML\<close> of the detached
  element it rendered into.
\<close>

definition htmlOpen :: \<open>jsstring\<close> where
  \<open>htmlOpen = js ''<div class="timeline">''\<close>

definition htmlEmpty :: \<open>jsstring\<close> where
  \<open>htmlEmpty = js ''<div class="timeline-empty">No timeline entries found.</div></div>''\<close>

definition htmlStartMarker :: \<open>jsstring\<close> where
  \<open>htmlStartMarker = js ''<div class="timeline-start-marker" aria-hidden="true"></div>''\<close>

definition htmlItemOpen :: \<open>jsstring\<close> where
  \<open>htmlItemOpen = js ''<div class="timeline-item">''\<close>

definition htmlMarker :: \<open>jsstring\<close> where
  \<open>htmlMarker = js ''<div class="timeline-marker" aria-hidden="true"></div>''\<close>

definition htmlContentOpen :: \<open>jsstring\<close> where
  \<open>htmlContentOpen = js ''<div class="timeline-content">''\<close>

definition htmlMetaOpen :: \<open>jsstring\<close> where
  \<open>htmlMetaOpen = js ''<div class="timeline-meta">''\<close>

definition htmlDate :: \<open>jsstring \<Rightarrow> jsstring\<close> where
  \<open>htmlDate d = js ''<span class="timeline-date">'' @ escapeHtml d @ js ''</span>''\<close>

definition htmlTitle :: \<open>jsstring \<Rightarrow> jsstring\<close> where
  \<open>htmlTitle t = js ''<span class="timeline-title">'' @ escapeHtml t @ js ''</span>''\<close>

definition htmlBody :: \<open>jsstring \<Rightarrow> jsstring\<close> where
  \<open>htmlBody bodyHtml = js ''<div class="timeline-body">'' @ bodyHtml @ js ''</div>''\<close>

text \<open>The segments appended for the meta block of an entry (none when it is omitted).\<close>

definition metaHtml :: "TimelinePluginSettings \<Rightarrow> TimelineEntry \<Rightarrow> jsstring list" where
  "metaHtml settings entry =
     (let dt = dateText settings entry in
      if truthy dt \<or> truthy (title entry) then
        [htmlMetaOpen]
        @ (case dt of Some d \<Rightarrow> (if d \<noteq> [] then [htmlDate d] else []) | None \<Rightarrow> [])
        @ (case title entry of Some t \<Rightarrow> (if t \<noteq> [] then [htmlTitle t] else []) | None \<Rightarrow> [])
        @ [js ''</div>'']
      else [])"

text \<open>One iteration of the loop over the entries: the segments appended for \<open>entry\<close>.\<close>

definition entryHtml ::
  "jsstring renderMarkdown \<Rightarrow> TimelinePluginSettings \<Rightarrow> jsstring \<Rightarrow> TimelineEntry
     \<Rightarrow> jsstring list option" where
  "entryHtml renderMarkdown settings sourcePath entry =
     (let front = [htmlItemOpen] @ (if showMarkers settings then [htmlMarker] else [])
                  @ [htmlContentOpen] @ metaHtml settings entry;
          b = trim (body entry)
      in if length b > 0 then
           (case renderMarkdown b sourcePath of
              None \<Rightarrow> None
            | Some inner \<Rightarrow>
                (let bodyHtml = trim inner in
                 Some (front @ (if length bodyHtml > 0 then [htmlBody bodyHtml] else [])
                       @ [js ''</div></div>''])))
         else Some (front @ [js ''</div></div>'']))"

text \<open>The loop: the entries are rendered one after the other, up to the first failure.\<close>

fun entriesHtml ::
  "jsstring renderMarkdown \<Rightarrow> TimelinePluginSettings \<Rightarrow> jsstring \<Rightarrow> TimelineEntry list
     \<Rightarrow> jsstring list option" where
  "entriesHtml renderMarkdown settings sourcePath [] = Some []"
| "entriesHtml renderMarkdown settings sourcePath (entry # entries) =
     (case entryHtml renderMarkdown settings sourcePath entry of
        None \<Rightarrow> None
      | Some segs \<Rightarrow>
          (case entriesHtml renderMarkdown settings sourcePath entries of
             None \<Rightarrow> None
           | Some rest \<Rightarrow> Some (segs @ rest)))"

text \<open>\<open>renderTimelineHtml\<close> from the parsed entries on, as the list of segments.\<close>

definition renderEntriesHtml ::
  "jsstring renderMarkdown \<Rightarrow> TimelineEntry list \<Rightarrow> TimelinePluginSettings \<Rightarrow> jsstring
     \<Rightarrow> jsstring list option" where
  "renderEntriesHtml renderMarkdown entries settings sourcePath =
     (if length entries = 0 then Some [htmlOpen, htmlEmpty]
      else
        (case entriesHtml renderMarkdown settings sourcePath entries of
           None \<Rightarrow> None
         | Some segs \<Rightarrow>
             Some ([htmlOpen] @ (if showMarkers settings then [htmlStartMarker] else [])
                   @ segs @ [js ''</div>''])))"

definition renderTimelineHtml ::
  "jsstring renderMarkdown \<Rightarrow> jsstring \<Rightarrow> TimelinePluginSettings \<Rightarrow> jsstring
     \<Rightarrow> jsstring option" where
  "renderTimelineHtml renderMarkdown source settings sourcePath =
     map_option concat
       (renderEntriesHtml renderMarkdown (parseTimelineSource source) settings sourcePath)"

subsection \<open>The live renderer\<close>

text \<open>
  The document tree the live renderer builds. Tag, class and attribute names are
  literals of the source. What the host's renderer puts into an element is one opaque
  child \<open>Rendered r\<close>.
\<close>

datatype 'r node =
    Element (tag: string) (cls: string) (attrs: "(string \<times> string) list")
      (children: "'r node list")
  | Text jsstring
  | Rendered 'r

text \<open>
  \<open>parent.createDiv(...)\<close> and \<open>parent.createSpan(...)\<close> append a new element to the
  children of \<open>parent\<close>; only an element has children. \<open>el.setText(t)\<close> replaces the
  children of \<open>el\<close> by the text \<open>t\<close>.
\<close>

fun appendChildren :: "'r node \<Rightarrow> 'r node list \<Rightarrow> 'r node" where
  "appendChildren (Element t c a ks) new = Element t c a (ks @ new)"
| "appendChildren n new = n"

definition createDiv :: "string \<Rightarrow> (string \<times> string) list \<Rightarrow> 'r node list \<Rightarrow> 'r node" where
  "createDiv c a ks = Element ''div'' c a ks"

definition createSpan :: "string \<Rightarrow> 'r node list \<Rightarrow> 'r node" where
  "createSpan c ks = Element ''span'' c [] ks"

definition setText :: "jsstring \<Rightarrow> 'r node list" where
  "setText t = (if t = [] then [] else [Text t])"

definition metaNodes :: "TimelinePluginSettings \<Rightarrow> TimelineEntry \<Rightarrow> 'r node list" where
  "metaNodes settings entry =
     (let dt = dateText settings entry in
      if truthy dt \<or> truthy (title entry) then
        [createDiv ''timeline-meta'' []
          ((case dt of
              Some d \<Rightarrow> (if d \<noteq> [] then [createSpan ''timeline-date'' (setText d)] else [])
            | None \<Rightarrow> [])
           @ (case title entry of
                Some t \<Rightarrow> (if t \<noteq> [] then [createSpan ''timeline-title'' (setText t)] else [])
              | None \<Rightarrow> []))]
      else [])"

text \<open>One iteration of the loop over the entries: the item appended for \<open>entry\<close>.\<close>

definition entryItem ::
  "'r renderMarkdown \<Rightarrow> TimelinePluginSettings \<Rightarrow> jsstring \<Rightarrow> TimelineEntry
     \<Rightarrow> 'r node option" where
  "entryItem renderMarkdown settings sourcePath entry =
     (let markers = (if showMarkers settings
                     then [createDiv ''timeline-marker'' [(''aria-hidden'', ''true'')] []]
                     else []);
          b = trim (body entry)
      in if length b > 0 then
           (case renderMarkdown b sourcePath of
              None \<Rightarrow> None
            | Some r \<Rightarrow>
                Some (createDiv ''timeline-item'' []
                  (markers @
                   [createDiv ''timeline-content'' []
                     (metaNodes settings entry
                      @ [createDiv ''timeline-body'' [] [Rendered r]])])))
         else
           Some (createDiv ''timeline-item'' []
             (markers @
              [createDiv ''timeline-content'' []
                (metaNodes settings entry @ [createDiv ''timeline-body'' [] []])])))"

fun entryItems ::
  "'r renderMarkdown \<Rightarrow> TimelinePluginSettings \<Rightarrow> jsstring \<Rightarrow> TimelineEntry list
     \<Rightarrow> 'r node list option" where
  "entryItems renderMarkdown settings sourcePath [] = Some []"
| "entryItems renderMarkdown settings sourcePath (entry # entries) =
     (case entryItem renderMarkdown settings sourcePath entry of
        None \<Rightarrow> None
      | Some item \<Rightarrow>
          (case entryItems renderMarkdown settings sourcePath entries of
             None \<Rightarrow> None
           | Some rest \<Rightarrow> Some (item # rest)))"

text \<open>
  \<open>renderTimelineEntries\<close>: the container after the rendering, or \<open>None\<close> when the
  host's renderer failed.
\<close>

definition renderTimelineEntries ::
  "'r renderMarkdown \<Rightarrow> TimelineEntry list \<Rightarrow> 'r node \<Rightarrow> jsstring \<Rightarrow> TimelinePluginSettings
     \<Rightarrow> 'r node option" where
  "renderTimelineEntries renderMarkdown entries container sourcePath settings =
     (if length entries = 0 then
        Some (appendChildren container
          [createDiv ''timeline-empty'' [] (setText (js ''No timeline entries found.''))])
      else
        (case entryItems renderMarkdown settings sourcePath entries of
           None \<Rightarrow> None
         | Some items \<Rightarrow>
             Some (appendChildren container
               ((if showMarkers settings
                 then [createDiv ''timeline-start-marker'' [(''aria-hidden'', ''true'')] []]
                 else [])
                @ items))))"

text \<open>The elements with class \<open>c\<close> in a tree, in document order.\<close>

fun elementsOfClass :: "string \<Rightarrow> 'r node \<Rightarrow> 'r node list" where
  "elementsOfClass c (Element t k a ks) =
     (if k = c then [Element t k a ks] else []) @ concat (map (elementsOfClass c) ks)"
| "elementsOfClass c (Text t) = []"
| "elementsOfClass c (Rendered r) = []"

section \<open>The specification's notions\<close>

text \<open>
  The definitions of this section are not translated from the source: they write down the
  words of the specification, to be compared with the program.
\<close>

subsection \<open>Lines of a block\<close>

text \<open>
  The first line of a block is the text before its first line break; the remaining lines,
  rejoined, are the text after it.
\<close>

definition firstLine :: "jsstring \<Rightarrow> jsstring" where
  "firstLine block = takeWhile (\<lambda>c. c \<noteq> 0x0A) block"

definition restLines :: "jsstring \<Rightarrow> jsstring" where
  "restLines block = drop 1 (dropWhile (\<lambda>c. c \<noteq> 0x0A) block)"

subsection \<open>Headers\<close>

text \<open>A field is absent when its text is empty.\<close>

definition presentIfNonEmpty :: "jsstring \<Rightarrow> jsstring option" where
  "presentIfNonEmpty s = (if s = [] then None else Some s)"

text \<open>
  The priority of the header rules as the specification words it: at a pipe, both
  segments are trimmed; at the separator \<open>'' - ''\<close>, the segment before the first
  occurrence is the date and the rest is the title; otherwise the trimmed line is the
  title.
\<close>

definition headerAsWorded :: "jsstring \<Rightarrow> Header" where
  "headerAsWorded line =
     (case indexOf (js ''|'') line of
        Some j \<Rightarrow> \<lparr>date = presentIfNonEmpty (trim (take j line)),
                   title = presentIfNonEmpty (trim (drop (j + 1) line))\<rparr>
      | None \<Rightarrow>
          (case indexOf (js '' - '') line of
             Some j \<Rightarrow> \<lparr>date = presentIfNonEmpty (take j line),
                        title = presentIfNonEmpty (drop (j + 3) line)\<rparr>
           | None \<Rightarrow> \<lparr>date = None, title = presentIfNonEmpty (trim line)\<rparr>))"

text \<open>The same priority, with both segments trimmed at the separator \<open>'' - ''\<close> too.\<close>

definition headerByPriority :: "jsstring \<Rightarrow> Header" where
  "headerByPriority line =
     (case indexOf (js ''|'') line of
        Some j \<Rightarrow> \<lparr>date = presentIfNonEmpty (trim (take j line)),
                   title = presentIfNonEmpty (trim (drop (j + 1) line))\<rparr>
      | None \<Rightarrow>
          (case indexOf (js '' - '') line of
             Some j \<Rightarrow> \<lparr>date = presentIfNonEmpty (trim (take j line)),
                        title = presentIfNonEmpty (trim (drop (j + 3) line))\<rparr>
           | None \<Rightarrow> \<lparr>date = None, title = presentIfNonEmpty (trim line)\<rparr>))"

subsection \<open>Lines that start a body\<close>

text \<open>An ordered-list marker: a numeral followed by a period.\<close>

definition beginsOrdered :: "jsstring \<Rightarrow> bool" where
  "beginsOrdered t = (takeWhile isDigit t \<noteq> [] \<and> prefix (js ''.'') (dropWhile isDigit t))"

text \<open>
  The classification as the specification words it: the trimmed line is empty or begins
  with a fenced-code marker, a block-quote marker, an unordered-list marker or an
  ordered-list marker.
\<close>

definition bodyStartAsWorded :: "jsstring \<Rightarrow> bool" where
  "bodyStartAsWorded line =
     (let t = trim line in
      t = [] \<or> prefix (js ''```'') t \<or> prefix (js ''>'') t
      \<or> prefix (js ''-'') t \<or> prefix (js ''*'') t \<or> prefix (js ''+'') t
      \<or> beginsOrdered t)"

text \<open>\<open>t\<close> begins with the marker \<open>m\<close> and a white space character follows it.\<close>

definition markerThenSpace :: "jsstring \<Rightarrow> jsstring \<Rightarrow> bool" where
  "markerThenSpace m t =
     (prefix m t \<and> (case drop (length m) t of [] \<Rightarrow> False | c # _ \<Rightarrow> isWhiteSpace c))"

text \<open>
  The same classification where a block-quote marker and an unordered-list marker count
  only when a white space character follows.
\<close>

definition bodyStartByMarkers :: "jsstring \<Rightarrow> bool" where
  "bodyStartByMarkers line =
     (let t = trim line in
      t = [] \<or> prefix (js ''```'') t \<or> markerThenSpace (js ''>'') t
      \<or> markerThenSpace (js ''-'') t \<or> markerThenSpace (js ''*'') t
      \<or> markerThenSpace (js ''+'') t
      \<or> beginsOrdered t)"

subsection \<open>Escaped text\<close>

text \<open>One character escaped: a reserved character gives its entity.\<close>

definition escapeChar :: \<open>jschar \<Rightarrow> jsstring\<close> where
  \<open>escapeChar c =
     (if c = 0x26 then js ''&amp;''
      else if c = 0x3C then js ''&lt;''
      else if c = 0x3E then js ''&gt;''
      else if c = 0x22 then js ''&quot;''
      else if c = 0x27 then js ''&#39;''
      else [c])\<close>

text \<open>Decoding: the five substitutions of \<open>escapeHtml\<close> reversed, the last one first.\<close>

definition unescapeHtml :: \<open>jsstring \<Rightarrow> jsstring\<close> where
  \<open>unescapeHtml s =
     replaceAll (js ''&amp;'') (js ''&'')
      (replaceAll (js ''&lt;'') (js ''<'')
        (replaceAll (js ''&gt;'') (js ''>'')
          (replaceAll (js ''&quot;'') (js ''"'')
            (replaceAll (js ''&#39;'') [0x27] s))))\<close>

definition entities :: \<open>jsstring list\<close> where
  \<open>entities = [js ''&amp;'', js ''&lt;'', js ''&gt;'', js ''&quot;'', js ''&#39;'']\<close>

text \<open>
  A text has no raw reserved character when \<open><\<close>, \<open>>\<close>, the quotation mark and the
  apostrophe do not occur in it and every \<open>&\<close> starts one of the five entities.
\<close>

fun noRawReserved :: \<open>jsstring \<Rightarrow> bool\<close> where
  \<open>noRawReserved [] = True\<close>
| \<open>noRawReserved (c # cs) =
     ((if c = 0x26 then list_ex (\<lambda>e. prefix e (c # cs)) entities
       else c \<noteq> 0x3C \<and> c \<noteq> 0x3E \<and> c \<noteq> 0x22 \<and> c \<noteq> 0x27)
      \<and> noRawReserved cs)\<close>

subsection \<open>The date shown\<close>

text \<open>
  The date to display: the entry's own date if present, else the trimmed default date
  label if that is not empty, else none.
\<close>

definition resolvedDate :: "TimelinePluginSettings \<Rightarrow> TimelineEntry \<Rightarrow> jsstring option" where
  "resolvedDate settings entry =
     (case date entry of
        Some d \<Rightarrow> Some d
      | None \<Rightarrow>
          (if trim (defaultDateLabel settings) \<noteq> [] then Some (trim (defaultDateLabel settings))
           else None))"

text \<open>
  The static segments of an item show the date \<open>d\<close> when their only date segment is the
  span of \<open>d\<close>, right after the opening of the meta block; they show no date when there is
  no date segment.
\<close>

definition dateSegments :: \<open>jsstring list \<Rightarrow> jsstring list\<close> where
  \<open>dateSegments segs = filter (prefix (js ''<span class="timeline-date">'')) segs\<close>

fun showsDateHtml :: "jsstring list \<Rightarrow> jsstring option \<Rightarrow> bool" where
  "showsDateHtml segs None = (dateSegments segs = [])"
| "showsDateHtml segs (Some d) =
     (dateSegments segs = [htmlDate d] \<and> sublist [htmlMetaOpen, htmlDate d] segs)"

text \<open>
  A live item shows the date \<open>d\<close> when its only date element is a span with the text
  \<open>d\<close>, inside the meta block; it shows no date when it has no date element.
\<close>

fun showsDateNode :: "'r node \<Rightarrow> jsstring option \<Rightarrow> bool" where
  "showsDateNode item None = (elementsOfClass ''timeline-date'' item = [])"
| "showsDateNode item (Some d) =
     (elementsOfClass ''timeline-date'' item = [Element ''span'' ''timeline-date'' [] [Text d]]
      \<and> concat (map (elementsOfClass ''timeline-date'') (elementsOfClass ''timeline-meta'' item))
          = [Element ''span'' ''timeline-date'' [] [Text d]])"

section \<open>White space\<close>

lemma dropWhile_rev_dropWhile:
  "dropWhile P (rev (dropWhile P (rev (dropWhile P s)))) = rev (dropWhile P (rev (dropWhile P s)))"
proof (cases "dropWhile P s")
  case Nil
  show ?thesis unfolding Nil by simp
next
  case (Cons c cs)
  then have nP: "\<not> P c" by (metis dropWhile_eq_Cons_conv)
  have "rev (dropWhile P (rev (c # cs))) = c # rev (dropWhile P (rev cs))"
    using nP by (simp add: dropWhile_append)
  then show ?thesis unfolding Cons using nP by simp
qed

lemma trim_idem: "trim (trim s) = trim s"
  unfolding trim_def by (simp add: dropWhile_rev_dropWhile)

lemma trim_Nil: "trim [] = []"
  by (simp add: trim_def)

lemma all_dropWhile_iff: "(\<forall>x\<in>set (dropWhile P s). P x) \<longleftrightarrow> (\<forall>x\<in>set s. P x)"
  by (induction s) auto

lemma trim_eq_Nil_iff: "trim s = [] \<longleftrightarrow> (\<forall>c\<in>set s. isWhiteSpace c)"
  unfolding trim_def by (simp add: all_dropWhile_iff)

lemma trim_Cons_nonspace: "\<not> isWhiteSpace c \<Longrightarrow> trim (c # s) \<noteq> []"
  by (simp add: trim_eq_Nil_iff)

lemma trim_hd_nonspace: "trim s = c # r \<Longrightarrow> \<not> isWhiteSpace c"
proof -
  assume a: "trim s = c # r"
  then have "dropWhile isWhiteSpace (trim s) = trim s"
    by (metis dropWhile_rev_dropWhile trim_def)
  with a show ?thesis by (metis dropWhile_eq_Cons_conv)
qed

section \<open>Entries produced by the segmenter\<close>

lemma parseHeader_fields:
  "date (parseHeader l) \<noteq> Some []" "title (parseHeader l) \<noteq> Some []"
  by (simp_all add: parseHeader_def Let_def)

lemma parseBlocks_map: "parseBlocks bs = map blockEntry bs"
  by (induction bs) simp_all

lemma blockEntry_inv:
  assumes "block \<noteq> []"
  shows "(truthy (date (blockEntry block)) \<or> truthy (title (blockEntry block))
          \<or> body (blockEntry block) \<noteq> [])
     \<and> date (blockEntry block) \<noteq> Some [] \<and> title (blockEntry block) \<noteq> Some []"
  using assms parseHeader_fields by (auto simp: blockEntry_def Let_def)

lemma parseTimelineSource_entries:
  "set (parseTimelineSource source) \<subseteq> blockEntry ` {b. b \<noteq> []}"
  by (auto simp: parseTimelineSource_def Let_def parseBlocks_map)

text \<open>
  Claim C5. Every entry the segmenter produces has a non-empty date, a non-empty title or
  a non-empty body; and a date or a title that is present is never the empty string.
\<close>

theorem segmenter_entries_meaningful:
  assumes "e \<in> set (parseTimelineSource source)"
  shows "((\<exists>d. date e = Some d \<and> d \<noteq> []) \<or> (\<exists>t. title e = Some t \<and> t \<noteq> []) \<or> body e \<noteq> [])
     \<and> date e \<noteq> Some [] \<and> title e \<noteq> Some []"
proof -
  from assms parseTimelineSource_entries obtain b where b: "b \<noteq> []" "e = blockEntry b"
    by blast
  have t: "truthy x \<longleftrightarrow> (\<exists>s. x = Some s \<and> s \<noteq> [])" for x
    by (cases x) simp_all
  from blockEntry_inv [OF b(1)] b(2) show ?thesis
    by (simp add: t)
qed

theorem segmenter_entries_meaningful_witness:
  "\<lparr>date = None, title = None, body = js ''|''\<rparr> \<in> set (parseTimelineSource (js ''a - b\<newline>\<newline>|''))
   \<and> body \<lparr>date = None, title = None, body = js ''|''\<rparr> \<noteq> []
   \<and> date \<lparr>date = None, title = None, body = js ''|''\<rparr> \<noteq> Some []"
proof -
  have h: "\<lparr>date = None, title = None, body = js ''|''\<rparr>
      \<in> set (parseTimelineSource (js ''a - b\<newline>\<newline>|''))"
    by code_simp
  from segmenter_entries_meaningful [OF h] h show ?thesis
    by simp
qed

section \<open>Splitting and joining\<close>

lemma indexOf_bound: "indexOf sep s = Some j \<Longrightarrow> j + length sep \<le> length s"
proof (induction s arbitrary: j)
  case Nil
  then show ?case by (simp split: if_splits)
next
  case (Cons c cs)
  show ?case
  proof (cases "prefix sep (c # cs)")
    case True
    then have "length sep \<le> length (c # cs)" by (rule prefix_length_le)
    with True Cons.prems show ?thesis by simp
  next
    case False
    with Cons.prems obtain m where "indexOf sep cs = Some m" "j = Suc m" by auto
    with Cons.IH show ?thesis by simp
  qed
qed

lemma indexOf_occurs: "indexOf sep s = Some j \<Longrightarrow> prefix sep (drop j s)"
proof (induction s arbitrary: j)
  case Nil
  then show ?case by (simp split: if_splits)
next
  case (Cons c cs)
  then show ?case by (auto split: if_splits)
qed

lemma indexOf_least: "indexOf sep s = Some j \<Longrightarrow> i < j \<Longrightarrow> \<not> prefix sep (drop i s)"
proof (induction s arbitrary: i j)
  case Nil
  then show ?case by (simp split: if_splits)
next
  case (Cons c cs)
  show ?case
  proof (cases "prefix sep (c # cs)")
    case True
    with Cons.prems show ?thesis by simp
  next
    case False
    with Cons.prems obtain m where m: "indexOf sep cs = Some m" "j = Suc m" by auto
    show ?thesis
    proof (cases i)
      case 0
      with False show ?thesis by simp
    next
      case (Suc k)
      with m Cons.prems have "k < m" by simp
      from Cons.IH [OF m(1) this] Suc show ?thesis by simp
    qed
  qed
qed

lemma indexOf_None: "indexOf sep s = None \<Longrightarrow> i \<le> length s \<Longrightarrow> \<not> prefix sep (drop i s)"
proof (induction s arbitrary: i)
  case Nil
  then show ?case by (simp split: if_splits)
next
  case (Cons c cs)
  then show ?case by (cases i) (auto split: if_splits)
qed

lemma indexOf_split:
  assumes "indexOf sep s = Some j"
  shows "s = take j s @ sep @ drop (j + length sep) s"
proof -
  from indexOf_occurs [OF assms] obtain r where r: "drop j s = sep @ r"
    by (auto simp: prefix_def)
  then have "drop (j + length sep) s = r"
    by (metis add.commute append_eq_conv_conj drop_drop)
  with r show ?thesis by (metis append_take_drop_id)
qed

lemma splitFrom_None: "sep \<noteq> [] \<Longrightarrow> indexOf sep s = None \<Longrightarrow> splitFrom sep s = [s]"
  by (subst splitFrom.simps) simp

lemma splitFrom_Some:
  "sep \<noteq> [] \<Longrightarrow> indexOf sep s = Some j \<Longrightarrow>
   splitFrom sep s = take j s # splitFrom sep (drop (j + length sep) s)"
  by (subst splitFrom.simps) simp

lemma splitFrom_nonempty: "splitFrom sep s \<noteq> []"
  by (subst splitFrom.simps) (simp split: option.splits)

lemma join_Cons: "ys \<noteq> [] \<Longrightarrow> join sep (x # ys) = x @ sep @ join sep ys"
  by (cases ys) simp_all

lemma join_splitFrom: "sep \<noteq> [] \<Longrightarrow> join sep (splitFrom sep s) = s"
proof (induction sep s rule: splitFrom.induct)
  case (1 sep s)
  show ?case
  proof (cases "indexOf sep s")
    case None
    with "1.prems" show ?thesis by (simp add: splitFrom_None)
  next
    case (Some j)
    from "1.IH" [OF "1.prems" Some] "1.prems"
    have "join sep (splitFrom sep (drop (j + length sep) s)) = drop (j + length sep) s" by simp
    with Some "1.prems" indexOf_split [OF Some] show ?thesis
      by (simp add: splitFrom_Some join_Cons splitFrom_nonempty)
  qed
qed

lemma length_splitFrom: "sep \<noteq> [] \<Longrightarrow> (2 \<le> length (splitFrom sep s)) = (indexOf sep s \<noteq> None)"
proof (cases "indexOf sep s")
  case None
  assume "sep \<noteq> []"
  with None show ?thesis by (simp add: splitFrom_None)
next
  case (Some j)
  assume "sep \<noteq> []"
  with Some show ?thesis using splitFrom_nonempty [of sep "drop (j + length sep) s"]
    by (cases "splitFrom sep (drop (j + length sep) s)") (simp_all add: splitFrom_Some)
qed

lemma js_pipe: "js ''|'' = [0x7C]" by (simp add: js_def)
lemma js_dash: "js '' - '' = [0x20, 0x2D, 0x20]" by (simp add: js_def)

lemma header_cut:
  assumes "sep \<noteq> []" "indexOf sep line = Some j"
  shows "(case splitFrom sep line of [] \<Rightarrow> [] | p # _ \<Rightarrow> p) = take j line"
    and "join sep (drop 1 (splitFrom sep line)) = drop (j + length sep) line"
  using assms by (simp_all add: splitFrom_Some join_splitFrom)

lemma js_nl: "js ''\<newline>'' = [0x0A]" by (simp add: js_def)

lemma rmatch_newline: "rmatch newlineRegex (c # cs) = (if c = 0x0A then [1] else [])"
  by (simp add: newlineRegex_def js_nl)

lemma splitRegexFrom_nonempty: "splitRegexFrom r acc s \<noteq> []"
  by (induction r acc s rule: splitRegexFrom.induct) (auto split: list.splits)

lemma splitRegexFrom_newline:
  "splitRegexFrom newlineRegex acc s =
     (rev acc @ firstLine s) #
     (case dropWhile (\<lambda>c. c \<noteq> 0x0A) s of [] \<Rightarrow> [] | _ # r \<Rightarrow> splitRegexFrom newlineRegex [] r)"
proof (induction s arbitrary: acc)
  case Nil
  show ?case by (simp add: firstLine_def)
next
  case (Cons c cs)
  show ?case
  proof (cases "c = 0x0A")
    case True
    then show ?thesis by (simp add: rmatch_newline firstLine_def)
  next
    case False
    then show ?thesis using Cons.IH [of "c # acc"] by (simp add: rmatch_newline firstLine_def)
  qed
qed

lemma join_splitRegexFrom_newline:
  "join [0x0A] (splitRegexFrom newlineRegex acc s) = rev acc @ s"
proof (induction s arbitrary: acc)
  case Nil
  show ?case by simp
next
  case (Cons c cs)
  show ?case
  proof (cases "c = 0x0A")
    case True
    then show ?thesis using Cons.IH [of "[]"]
      by (simp add: rmatch_newline join_Cons splitRegexFrom_nonempty)
  next
    case False
    then show ?thesis using Cons.IH [of "c # acc"] by (simp add: rmatch_newline)
  qed
qed

lemma block_lines:
  "\<exists>ls. jsSplitRegex newlineRegex block = firstLine block # ls
        \<and> join (js ''\<newline>'') ls = restLines block"
proof (cases block)
  case Nil
  then show ?thesis
    by (simp add: jsSplitRegex_def newlineRegex_def js_nl firstLine_def restLines_def)
next
  case (Cons c cs)
  define ls where "ls = (case dropWhile (\<lambda>c. c \<noteq> 0x0A) block of [] \<Rightarrow> []
                         | _ # r \<Rightarrow> splitRegexFrom newlineRegex [] r)"
  have 1: "jsSplitRegex newlineRegex block = firstLine block # ls"
    using Cons splitRegexFrom_newline [of "[]" block] by (simp add: jsSplitRegex_def ls_def)
  have 2: "join [0x0A] ls = restLines block"
  proof (cases "dropWhile (\<lambda>c. c \<noteq> 0x0A) block")
    case Nil
    show ?thesis unfolding ls_def restLines_def Nil by simp
  next
    case (Cons x xs)
    show ?thesis unfolding ls_def restLines_def Cons by (simp add: join_splitRegexFrom_newline)
  qed
  from 1 2 show ?thesis by (simp add: js_nl)
qed

lemma isLikelyBodyStart_trim: "isLikelyBodyStart (trim l) = isLikelyBodyStart l"
  by (simp add: isLikelyBodyStart_def trim_idem)

lemma blockEntry_unfold:
  "blockEntry block =
     (if isLikelyBodyStart (firstLine block) then \<lparr>date = None, title = None, body = block\<rparr>
      else if \<not> truthy (date (parseHeader (trim (firstLine block))))
              \<and> \<not> truthy (title (parseHeader (trim (firstLine block))))
              \<and> trim (restLines block) = []
           then \<lparr>date = None, title = None, body = block\<rparr>
           else \<lparr>date = date (parseHeader (trim (firstLine block))),
                 title = title (parseHeader (trim (firstLine block))),
                 body = trim (restLines block)\<rparr>)"
proof -
  from block_lines obtain ls where ls: "jsSplitRegex newlineRegex block = firstLine block # ls"
    "join (js ''\<newline>'') ls = restLines block" by blast
  show ?thesis
    unfolding blockEntry_def Let_def ls
    by (simp add: ls isLikelyBodyStart_trim)
qed

section \<open>The regular expression of the classifier\<close>

lemma rmatch_AtLeast_ne: "rmatch (AtLeast n P) s \<noteq> [] \<longleftrightarrow> n \<le> length (takeWhile P s)"
  by auto

lemma rmatch_Seq_ne:
  "rmatch (Seq a b) s \<noteq> [] \<longleftrightarrow> (\<exists>i\<in>set (rmatch a s). rmatch b (drop i s) \<noteq> [])"
  by auto

lemma marker_regex:
  "rmatch (Seq (Lit [m]) (AtLeast 1 isWhiteSpace)) t \<noteq> [] \<longleftrightarrow> markerThenSpace [m] t"
proof (cases t)
  case Nil
  then show ?thesis by (simp add: markerThenSpace_def)
next
  case (Cons c cs)
  then show ?thesis
    by (cases cs) (auto simp: markerThenSpace_def)
qed

lemma class_regex:
  "rmatch (Seq (Class P) (AtLeast 1 isWhiteSpace)) t \<noteq> [] \<longleftrightarrow>
     (\<exists>m. P m \<and> markerThenSpace [m] t)"
proof (cases t)
  case Nil
  then show ?thesis by (simp add: markerThenSpace_def)
next
  case (Cons c cs)
  then show ?thesis
    by (cases cs) (auto simp: markerThenSpace_def)
qed

lemma isDigit_not_dot: "isDigit d \<Longrightarrow> d \<noteq> 0x2E"
  by (auto simp: isDigit_def)

lemma ordered_regex:
  "rmatch (Seq (AtLeast 1 isDigit) (Lit [0x2E])) t \<noteq> [] \<longleftrightarrow> beginsOrdered t"
proof -
  define k where "k = length (takeWhile isDigit t)"
  have dk: "drop k t = dropWhile isDigit t"
    unfolding k_def by (simp add: dropWhile_eq_drop)
  have inner: "\<not> prefix [0x2E] (drop i t)" if "i < k" for i
  proof -
    from that have il: "i < length t"
      unfolding k_def using length_takeWhile_le [of isDigit t] by simp
    from that have "isDigit (t ! i)"
      unfolding k_def by (metis nth_mem takeWhile_nth set_takeWhileD)
    then have "t ! i \<noteq> 0x2E" by (rule isDigit_not_dot)
    moreover from il have "drop i t = t ! i # drop (Suc i) t" by (simp add: Cons_nth_drop_Suc)
    ultimately show ?thesis by simp
  qed
  have lit: "rmatch (Lit [0x2E]) u \<noteq> [] \<longleftrightarrow> prefix [0x2E] u" for u :: jsstring
    by simp
  have "rmatch (Seq (AtLeast 1 isDigit) (Lit [0x2E])) t \<noteq> []
        \<longleftrightarrow> (\<exists>i\<in>{1..<Suc k}. prefix [0x2E] (drop i t))"
    unfolding rmatch_Seq_ne lit k_def by (simp only: rmatch.simps set_rev set_upt)
  also have "\<dots> \<longleftrightarrow> 1 \<le> k \<and> prefix [0x2E] (drop k t)"
  proof
    assume "\<exists>i\<in>{1..<Suc k}. prefix [0x2E] (drop i t)"
    then obtain i where i: "1 \<le> i" "i < Suc k" "prefix [0x2E] (drop i t)" by auto
    with inner [of i] have "i = k" by (cases "i < k") simp_all
    with i show "1 \<le> k \<and> prefix [0x2E] (drop k t)" by simp
  next
    assume "1 \<le> k \<and> prefix [0x2E] (drop k t)"
    then have "k \<in> {1..<Suc k}" "prefix [0x2E] (drop k t)" by simp_all
    then show "\<exists>i\<in>{1..<Suc k}. prefix [0x2E] (drop i t)" by blast
  qed
  also have "\<dots> \<longleftrightarrow> beginsOrdered t"
  proof -
    have "1 \<le> k \<longleftrightarrow> takeWhile isDigit t \<noteq> []"
      unfolding k_def by (cases "takeWhile isDigit t") simp_all
    moreover have "js ''.'' = [0x2E]" by (simp add: js_def)
    ultimately show ?thesis unfolding beginsOrdered_def dk by simp
  qed
  finally show ?thesis .
qed

lemma testAtStart_bodyStartRegex:
  "testAtStart bodyStartRegex t \<longleftrightarrow>
     prefix (js ''```'') t \<or> markerThenSpace (js ''>'') t
     \<or> markerThenSpace (js ''-'') t \<or> markerThenSpace (js ''*'') t
     \<or> markerThenSpace (js ''+'') t \<or> beginsOrdered t"
proof -
  have lits: "js ''>'' = [0x3E]" "js ''-'' = [0x2D]" "js ''*'' = [0x2A]" "js ''+'' = [0x2B]"
    "js ''.'' = [0x2E]" "set (js ''-*+'') = {0x2D, 0x2A, 0x2B}"
    by (simp_all add: js_def)
  have "testAtStart bodyStartRegex t \<longleftrightarrow>
     rmatch (Lit (js ''```'')) t \<noteq> []
     \<or> rmatch (Seq (Lit [0x3E]) (AtLeast 1 isWhiteSpace)) t \<noteq> []
     \<or> rmatch (Seq (Class (\<lambda>c. c \<in> {0x2D, 0x2A, 0x2B})) (AtLeast 1 isWhiteSpace)) t \<noteq> []
     \<or> rmatch (Seq (AtLeast 1 isDigit) (Lit [0x2E])) t \<noteq> []"
    unfolding testAtStart_def bodyStartRegex_def lits by (simp only: rmatch.simps(5) append_is_Nil_conv de_Morgan_conj)
  then show ?thesis
    unfolding marker_regex class_regex ordered_regex lits by auto
qed

lemma isLikelyBodyStart_markers: "isLikelyBodyStart line = bodyStartByMarkers line"
  unfolding isLikelyBodyStart_def bodyStartByMarkers_def Let_def
  by (simp add: testAtStart_bodyStartRegex)

section \<open>Headers\<close>

lemma parseHeader_headerByPriority: "parseHeader line = headerByPriority line"
proof (cases "indexOf (js ''|'') line")
  case (Some j)
  have ne: "js ''|'' \<noteq> []" by (simp add: js_def)
  have len: "length (js ''|'') = 1" by (simp add: js_def)
  from Some show ?thesis
    unfolding parseHeader_def headerByPriority_def Let_def jsSplit_def
    using header_cut [OF ne Some] length_splitFrom [OF ne, of line]
    by (simp add: ne len presentIfNonEmpty_def)
next
  case None
  have ne: "js ''|'' \<noteq> []" by (simp add: js_def)
  have ned: "js '' - '' \<noteq> []" by (simp add: js_def)
  have len: "length (js '' - '') = 3" by (simp add: js_def)
  show ?thesis
  proof (cases "indexOf (js '' - '') line")
    case N2: None
    from None N2 show ?thesis
      unfolding parseHeader_def headerByPriority_def Let_def jsSplit_def
      using length_splitFrom [OF ne, of line] length_splitFrom [OF ned, of line]
      by (simp add: ne ned presentIfNonEmpty_def)
  next
    case (Some j)
    from None Some show ?thesis
      unfolding parseHeader_def headerByPriority_def Let_def jsSplit_def
      using length_splitFrom [OF ne, of line] length_splitFrom [OF ned, of line]
        header_cut [OF ned Some]
      by (simp add: ne ned len presentIfNonEmpty_def)
  qed
qed

text \<open>
  Claim C2 (as amended). \<open>parseHeader\<close> applies this priority to every header line: if
  the line contains a pipe, the trimmed segment before the first pipe is the date and the
  trimmed text after the first pipe is the title; else if the line contains the separator
  \<open>'' - ''\<close>, the trimmed segment before its first occurrence is the date and the trimmed
  rest is the title; else the trimmed line is the title and there is no date. A field whose
  text is empty is absent.
\<close>

theorem parseHeader_priority: "parseHeader line = headerByPriority line"
  by (rule parseHeader_headerByPriority)

theorem parseHeader_priority_witness:
  "parseHeader (js ''2024-01-01 | Launch | now'')
     = \<lparr>date = Some (js ''2024-01-01''), title = Some (js ''Launch | now'')\<rparr>
   \<and> parseHeader (js ''2024  - Launch - now'')
     = \<lparr>date = Some (js ''2024''), title = Some (js ''Launch - now'')\<rparr>
   \<and> parseHeader (js ''Just a title'') = \<lparr>date = None, title = Some (js ''Just a title'')\<rparr>"
proof -
  have h: "headerByPriority (js ''2024-01-01 | Launch | now'')
       = \<lparr>date = Some (js ''2024-01-01''), title = Some (js ''Launch | now'')\<rparr>"
    "headerByPriority (js ''2024  - Launch - now'')
       = \<lparr>date = Some (js ''2024''), title = Some (js ''Launch - now'')\<rparr>"
    "headerByPriority (js ''Just a title'') = \<lparr>date = None, title = Some (js ''Just a title'')\<rparr>"
    by code_simp+
  show ?thesis
    using parseHeader_priority [of "js ''2024-01-01 | Launch | now''"]
      parseHeader_priority [of "js ''2024  - Launch - now''"]
      parseHeader_priority [of "js ''Just a title''"] h
    by simp
qed

text \<open>
  As the claim words it, the segments at the separator \<open>'' - ''\<close> are taken as they are.
  The program trims them: in \<open>2024  - Launch\<close> the segment before the separator ends
  with a space, and the date is \<open>2024\<close>.
\<close>

theorem header_as_worded_counterexample:
  "date (parseHeader (js ''2024  - Launch'')) = Some (js ''2024'')
   \<and> date (headerAsWorded (js ''2024  - Launch'')) = Some (js ''2024 '')
   \<and> parseHeader (js ''2024  - Launch'') \<noteq> headerAsWorded (js ''2024  - Launch'')"
  by code_simp

lemma trim_single:
  assumes "\<not> isWhiteSpace c" "\<forall>x\<in>set r. isWhiteSpace x"
  shows "trim (c # r) = [c]"
proof -
  have "dropWhile isWhiteSpace (rev r @ [c]) = dropWhile isWhiteSpace [c]"
    by (rule dropWhile_append2) (use assms(2) in simp)
  with assms(1) show ?thesis by (simp add: trim_def)
qed

lemma indexOf_Cons_pos:
  assumes "indexOf sep (c # r) = Some j" "\<not> prefix sep (c # r)"
  shows "\<exists>k. j = Suc k"
  using assms by auto

lemma header_neither_iff:
  assumes ns: "\<not> isWhiteSpace c"
  shows "(date (parseHeader (c # r)) = None \<and> title (parseHeader (c # r)) = None)
         \<longleftrightarrow> (c = 0x7C \<and> (\<forall>x\<in>set r. isWhiteSpace x))"
proof (cases "c = 0x7C")
  case True
  then have "indexOf (js ''|'') (c # r) = Some 0" by (simp add: js_pipe)
  then show ?thesis using True
    by (simp add: parseHeader_headerByPriority headerByPriority_def presentIfNonEmpty_def trim_Nil
        trim_eq_Nil_iff)
next
  case False
  have nodash: "\<not> prefix (js '' - '') (c # r)"
    using ns by (auto simp: js_dash isWhiteSpace_def)
  have nopipe: "\<not> prefix (js ''|'') (c # r)"
    using False by (simp add: js_pipe)
  have front: "trim (take (Suc k) (c # r)) \<noteq> []" for k
    using ns by (simp add: trim_Cons_nonspace)
  have "date (headerByPriority (c # r)) \<noteq> None \<or> title (headerByPriority (c # r)) \<noteq> None"
  proof (cases "indexOf (js ''|'') (c # r)")
    case (Some j)
    with indexOf_Cons_pos [OF Some nopipe] front show ?thesis
      by (auto simp: headerByPriority_def presentIfNonEmpty_def)
  next
    case None
    show ?thesis
    proof (cases "indexOf (js '' - '') (c # r)")
      case N2: None
      with None ns show ?thesis
        by (simp add: headerByPriority_def presentIfNonEmpty_def trim_Cons_nonspace)
    next
      case (Some j)
      with None indexOf_Cons_pos [OF Some nodash] front show ?thesis
        by (auto simp: headerByPriority_def presentIfNonEmpty_def)
    qed
  qed
  with False show ?thesis by (simp add: parseHeader_headerByPriority)
qed

lemma parseHeader_bar: "parseHeader [0x7C] = \<lparr>date = None, title = None\<rparr>"
  by code_simp

lemma neither_trimmed:
  assumes "\<not> isWhiteSpace c"
    "date (parseHeader (c # r)) = None" "title (parseHeader (c # r)) = None"
  shows "date (parseHeader (trim (c # r))) = None \<and> title (parseHeader (trim (c # r))) = None"
proof -
  from assms header_neither_iff [OF assms(1), of r]
  have "c = 0x7C" "\<forall>x\<in>set r. isWhiteSpace x" by simp_all
  with assms(1) have "trim (c # r) = [0x7C]" by (simp add: trim_single)
  then show ?thesis by (simp add: parseHeader_bar)
qed

lemma truthy_field: "x \<noteq> Some [] \<Longrightarrow> truthy x \<longleftrightarrow> x \<noteq> None"
  by (cases x) simp_all

lemma truthy_parseHeader:
  "truthy (date (parseHeader l)) \<longleftrightarrow> date (parseHeader l) \<noteq> None"
  "truthy (title (parseHeader l)) \<longleftrightarrow> title (parseHeader l) \<noteq> None"
  by (simp_all add: truthy_field parseHeader_fields)

lemma firstLine_hd: "block = c # r \<Longrightarrow> firstLine block \<noteq> [] \<Longrightarrow> \<exists>r'. firstLine block = c # r'"
  by (auto simp: firstLine_def split: if_splits)

section \<open>Blocks\<close>

text \<open>
  Claim C4. For a block whose first line is not classified as body content and whose
  remaining lines, rejoined and trimmed, are empty: if \<open>parseHeader\<close> yields neither a
  date nor a title for the header line, the entry is the block itself, verbatim. The
  program hands the trimmed first line to \<open>parseHeader\<close>; for a trimmed block, as the
  segmenter produces them, the untrimmed first line gives the same.
\<close>

theorem fallback_keeps_block:
  "\<not> isLikelyBodyStart (firstLine block) \<and> trim (restLines block) = [] \<longrightarrow>
     (date (parseHeader (trim (firstLine block))) = None
        \<and> title (parseHeader (trim (firstLine block))) = None
      \<longrightarrow> blockEntry block = \<lparr>date = None, title = None, body = block\<rparr>)
     \<and> (trim block = block \<and> date (parseHeader (firstLine block)) = None
        \<and> title (parseHeader (firstLine block)) = None
      \<longrightarrow> blockEntry block = \<lparr>date = None, title = None, body = block\<rparr>)"
proof (intro impI conjI)
  assume a: "\<not> isLikelyBodyStart (firstLine block) \<and> trim (restLines block) = []"
  assume "date (parseHeader (trim (firstLine block))) = None
        \<and> title (parseHeader (trim (firstLine block))) = None"
  with a show "blockEntry block = \<lparr>date = None, title = None, body = block\<rparr>"
    by (subst blockEntry_unfold) simp
next
  assume a: "\<not> isLikelyBodyStart (firstLine block) \<and> trim (restLines block) = []"
  assume b: "trim block = block \<and> date (parseHeader (firstLine block)) = None
        \<and> title (parseHeader (firstLine block)) = None"
  from a have ne: "firstLine block \<noteq> []"
    by (auto simp: isLikelyBodyStart_def trim_Nil)
  then obtain c r where cr: "block = c # r" by (cases block) (simp_all add: firstLine_def)
  with b have "\<not> isWhiteSpace c" by (metis trim_hd_nonspace)
  moreover from firstLine_hd [OF cr ne] obtain r' where "firstLine block = c # r'" ..
  ultimately have "date (parseHeader (trim (firstLine block))) = None
        \<and> title (parseHeader (trim (firstLine block))) = None"
    using b neither_trimmed by simp
  with a show "blockEntry block = \<lparr>date = None, title = None, body = block\<rparr>"
    by (subst blockEntry_unfold) simp
qed

theorem fallback_keeps_block_witness:
  "\<not> isLikelyBodyStart (firstLine (js ''|'')) \<and> trim (restLines (js ''|'')) = []
   \<and> trim (js ''|'') = js ''|''
   \<and> date (parseHeader (firstLine (js ''|''))) = None
   \<and> title (parseHeader (firstLine (js ''|''))) = None
   \<and> date (parseHeader (trim (firstLine (js ''|'')))) = None
   \<and> title (parseHeader (trim (firstLine (js ''|'')))) = None
   \<and> blockEntry (js ''|'') = \<lparr>date = None, title = None, body = js ''|''\<rparr>"
proof -
  have h: "\<not> isLikelyBodyStart (firstLine (js ''|''))" "trim (restLines (js ''|'')) = []"
    "trim (js ''|'') = js ''|''"
    "date (parseHeader (firstLine (js ''|''))) = None"
    "title (parseHeader (firstLine (js ''|''))) = None"
    "date (parseHeader (trim (firstLine (js ''|'')))) = None"
    "title (parseHeader (trim (firstLine (js ''|'')))) = None"
    by code_simp+
  from fallback_keeps_block [of "js ''|''"] h show ?thesis by simp
qed

text \<open>
  As claim C3 words it, every line that begins with a block-quote marker or with an
  unordered-list marker starts a body. The program does not classify \<open>>note\<close> so.
\<close>

theorem body_start_as_worded_counterexample:
  "bodyStartAsWorded (js ''>note'') \<and> \<not> isLikelyBodyStart (js ''>note'')"
  by code_simp

text \<open>
  Claim C3 (as amended). The classifier returns true exactly when the trimmed line is
  empty or begins with three backticks, with \<open>>\<close> followed by a white space character,
  with \<open>-\<close>, \<open>*\<close> or \<open>+\<close> followed by a white space character, or with a numeral
  followed by a period; and when it returns true for the first line of a block, the entry
  is the whole block, unchanged, as its body, with no date and no title.
\<close>

theorem body_start_classification:
  "isLikelyBodyStart line = bodyStartByMarkers line
   \<and> (isLikelyBodyStart (firstLine block) \<longrightarrow>
        blockEntry block = \<lparr>date = None, title = None, body = block\<rparr>)"
  by (simp add: isLikelyBodyStart_markers blockEntry_unfold)

theorem body_start_classification_witness:
  "isLikelyBodyStart (js ''- item one'') \<and> bodyStartByMarkers (js ''- item one'')
   \<and> isLikelyBodyStart (firstLine (js ''- item one\<newline>- item two''))
   \<and> blockEntry (js ''- item one\<newline>- item two'')
       = \<lparr>date = None, title = None, body = js ''- item one\<newline>- item two''\<rparr>"
proof -
  have h: "bodyStartByMarkers (js ''- item one'')"
    "isLikelyBodyStart (firstLine (js ''- item one\<newline>- item two''))"
    by code_simp+
  from body_start_classification [of "js ''- item one''" "js ''- item one\<newline>- item two''"] h
  show ?thesis by simp
qed

lemma marker_not_space:
  "m \<in> {0x3E, 0x2D, 0x2A, 0x2B} \<Longrightarrow> \<not> isWhiteSpace (m :: jschar) \<and> m \<noteq> 0x7C \<and> \<not> isDigit m \<and> m \<noteq> 0x60"
  by (auto simp: isWhiteSpace_def isDigit_def)

lemma not_body_start:
  assumes t: "trim line = m # c # r" and m: "m \<in> {0x3E, 0x2D, 0x2A, 0x2B}"
    and c: "\<not> isWhiteSpace c"
  shows "\<not> isLikelyBodyStart line"
proof -
  have lits: "js ''>'' = [0x3E]" "js ''-'' = [0x2D]" "js ''*'' = [0x2A]" "js ''+'' = [0x2B]"
    "js ''```'' = [0x60, 0x60, 0x60]"
    by (simp_all add: js_def)
  from marker_not_space [OF m] c show ?thesis
    unfolding isLikelyBodyStart_markers bodyStartByMarkers_def Let_def t lits
    by (simp add: markerThenSpace_def beginsOrdered_def)
qed

lemma ordered_body_start:
  assumes t: "trim line = ds @ 0x2E # r" and ds: "ds \<noteq> []" "\<forall>d\<in>set ds. isDigit d"
  shows "isLikelyBodyStart line"
proof -
  have nd: "\<not> isDigit 0x2E" by (simp add: isDigit_def)
  from ds nd have "takeWhile isDigit (ds @ 0x2E # r) = ds"
    by (simp add: takeWhile_append2)
  moreover from ds nd have "dropWhile isDigit (ds @ 0x2E # r) = 0x2E # r"
    by (simp add: dropWhile_append2)
  ultimately have "beginsOrdered (trim line)"
    using ds by (simp add: beginsOrdered_def t js_def)
  then show ?thesis
    by (simp add: isLikelyBodyStart_markers bodyStartByMarkers_def)
qed

text \<open>
  Claim C10. A line whose trimmed form starts with \<open>>\<close>, \<open>-\<close>, \<open>*\<close> or \<open>+\<close>
  immediately followed by a character that is not white space is not a body start, and
  the block it opens is parsed as a header: date and title come from \<open>parseHeader\<close>, the
  body is the trimmed rest. A line whose trimmed form starts with one or more digits
  immediately followed by a period is a body start, and the whole block becomes the body.
\<close>

theorem marker_spacing:
  "(trim line = m # c # r \<and> m \<in> {0x3E, 0x2D, 0x2A, 0x2B} \<and> \<not> isWhiteSpace c \<longrightarrow>
      \<not> isLikelyBodyStart line
      \<and> (firstLine block = line \<longrightarrow>
           blockEntry block = \<lparr>date = date (parseHeader (trim line)),
                                 title = title (parseHeader (trim line)),
                                 body = trim (restLines block)\<rparr>))
   \<and> (trim line = ds @ 0x2E # r' \<and> ds \<noteq> [] \<and> (\<forall>d\<in>set ds. isDigit d) \<longrightarrow>
        isLikelyBodyStart line
        \<and> (firstLine block = line \<longrightarrow>
             blockEntry block = \<lparr>date = None, title = None, body = block\<rparr>))"
proof (intro conjI impI)
  assume a: "trim line = m # c # r \<and> m \<in> {0x3E, 0x2D, 0x2A, 0x2B} \<and> \<not> isWhiteSpace c"
  then show nb: "\<not> isLikelyBodyStart line" using not_body_start by blast
  assume fl: "firstLine block = line"
  from a marker_not_space [of m] have "\<not> isWhiteSpace m" "m \<noteq> 0x7C" by simp_all
  with header_neither_iff [of m "c # r"] a
  have "\<not> (date (parseHeader (trim line)) = None \<and> title (parseHeader (trim line)) = None)"
    by simp
  with nb fl show "blockEntry block = \<lparr>date = date (parseHeader (trim line)),
      title = title (parseHeader (trim line)), body = trim (restLines block)\<rparr>"
    by (subst blockEntry_unfold) (auto simp: truthy_parseHeader)
next
  assume a: "trim line = ds @ 0x2E # r' \<and> ds \<noteq> [] \<and> (\<forall>d\<in>set ds. isDigit d)"
  then show b: "isLikelyBodyStart line" using ordered_body_start by blast
  assume "firstLine block = line"
  with b show "blockEntry block = \<lparr>date = None, title = None, body = block\<rparr>"
    by (subst blockEntry_unfold) simp
qed

theorem marker_spacing_witness:
  "\<not> isLikelyBodyStart (js ''>note'')
   \<and> blockEntry (js ''>note\<newline>more'')
       = \<lparr>date = date (parseHeader (trim (js ''>note''))),
          title = title (parseHeader (trim (js ''>note''))),
          body = trim (restLines (js ''>note\<newline>more''))\<rparr>
   \<and> title (parseHeader (trim (js ''>note''))) = Some (js ''>note'')
   \<and> isLikelyBodyStart (js ''1.5 | Release'')
   \<and> blockEntry (js ''1.5 | Release'')
       = \<lparr>date = None, title = None, body = js ''1.5 | Release''\<rparr>"
proof -
  have h: "trim (js ''>note'') = 0x3E # 0x6E # js ''ote''" "\<not> isWhiteSpace (0x6E :: jschar)"
    "firstLine (js ''>note\<newline>more'') = js ''>note''"
    "trim (js ''1.5 | Release'') = js ''1'' @ 0x2E # js ''5 | Release''"
    "js ''1'' \<noteq> []" "\<forall>d\<in>set (js ''1''). isDigit d"
    "firstLine (js ''1.5 | Release'') = js ''1.5 | Release''"
    "title (parseHeader (trim (js ''>note''))) = Some (js ''>note'')"
    by code_simp+
  have m: "(0x3E :: jschar) \<in> {0x3E, 0x2D, 0x2A, 0x2B}" by simp
  from marker_spacing [where line = "js ''>note''" and m = "0x3E" and c = "0x6E" and r = "js ''ote''"
      and block = "js ''>note\<newline>more''"] h m
  have 1: "\<not> isLikelyBodyStart (js ''>note'')
   \<and> blockEntry (js ''>note\<newline>more'')
       = \<lparr>date = date (parseHeader (trim (js ''>note''))),
          title = title (parseHeader (trim (js ''>note''))),
          body = trim (restLines (js ''>note\<newline>more''))\<rparr>" by blast
  from marker_spacing [where line = "js ''1.5 | Release''" and block = "js ''1.5 | Release''"
      and ds = "js ''1''" and r' = "js ''5 | Release''"] h
  have 2: "isLikelyBodyStart (js ''1.5 | Release'')
   \<and> blockEntry (js ''1.5 | Release'')
       = \<lparr>date = None, title = None, body = js ''1.5 | Release''\<rparr>" by blast
  from 1 2 h(8) show ?thesis by blast
qed

section \<open>Escaping and decoding\<close>

lemma replaceAll_char:
  "replaceAll [p] rep s = concat (map (\<lambda>c. if c = p then rep else [c]) s)"
  by (induction s) auto

lemma concat_map_concat_map:
  "concat (map f (concat (map g s))) = concat (map (\<lambda>c. concat (map f (g c))) s)"
  by (induction s) simp_all

lemma escape_lits:
  "js ''&'' = [0x26]" "js ''<'' = [0x3C]" "js ''>'' = [0x3E]" "js [CHR 0x22] = [0x22]"
  "js ''&amp;'' = [0x26, 0x61, 0x6D, 0x70, 0x3B]"
  "js ''&lt;'' = [0x26, 0x6C, 0x74, 0x3B]"
  "js ''&gt;'' = [0x26, 0x67, 0x74, 0x3B]"
  "js ''&quot;'' = [0x26, 0x71, 0x75, 0x6F, 0x74, 0x3B]"
  "js ''&#39;'' = [0x26, 0x23, 0x33, 0x39, 0x3B]"
  by (simp_all add: js_def)

lemma escapeHtml_chars: "escapeHtml s = concat (map escapeChar s)"
proof -
  have "escapeHtml s = concat (map (\<lambda>c.
       concat (map (\<lambda>c. if c = 0x27 then js ''&#39;'' else [c])
        (concat (map (\<lambda>c. if c = 0x22 then js ''&quot;'' else [c])
          (concat (map (\<lambda>c. if c = 0x3E then js ''&gt;'' else [c])
            (concat (map (\<lambda>c. if c = 0x3C then js ''&lt;'' else [c])
              (if c = 0x26 then js ''&amp;'' else [c]))))))))) s)"
    unfolding escapeHtml_def escape_lits(1-4) replaceAll_char
    by (simp only: concat_map_concat_map)
  also have "\<dots> = concat (map escapeChar s)"
  proof -
    have "concat (map (\<lambda>c. if c = 0x27 then js ''&#39;'' else [c])
        (concat (map (\<lambda>c. if c = 0x22 then js ''&quot;'' else [c])
          (concat (map (\<lambda>c. if c = 0x3E then js ''&gt;'' else [c])
            (concat (map (\<lambda>c. if c = 0x3C then js ''&lt;'' else [c])
              (if c = 0x26 then js ''&amp;'' else [c])))))))) = escapeChar c" for c :: jschar
      by (simp add: escapeChar_def escape_lits)
    then show ?thesis by simp
  qed
  finally show ?thesis .
qed

lemma noRaw_token: "noRawReserved (escapeChar c @ r) = noRawReserved r"
  by (simp add: escapeChar_def escape_lits entities_def)

lemma noRaw_escapeHtml: "noRawReserved (escapeHtml s)"
  unfolding escapeHtml_chars by (induction s) (simp_all add: noRaw_token)

lemma replaceAll_tokens:
  assumes "\<And>c r. replaceAll pat rep (f c @ r) = g c @ replaceAll pat rep r"
  shows "replaceAll pat rep (concat (map f s)) = concat (map g s)"
  by (induction s) (simp_all add: assms)

lemma stage1:
  "replaceAll (js ''&#39;'') [0x27] (escapeChar c @ r)
   = (if c \<in> {0x27} then [c] else escapeChar c) @ replaceAll (js ''&#39;'') [0x27] r"
  by (simp add: escapeChar_def escape_lits)

lemma stage2:
  "replaceAll (js ''&quot;'') [0x22] ((if c \<in> {0x27} then [c] else escapeChar c) @ r)
   = (if c \<in> {0x27, 0x22} then [c] else escapeChar c) @ replaceAll (js ''&quot;'') [0x22] r"
  by (simp add: escapeChar_def escape_lits)

lemma stage3:
  "replaceAll (js ''&gt;'') [0x3E] ((if c \<in> {0x27, 0x22} then [c] else escapeChar c) @ r)
   = (if c \<in> {0x27, 0x22, 0x3E} then [c] else escapeChar c) @ replaceAll (js ''&gt;'') [0x3E] r"
  by (simp add: escapeChar_def escape_lits)

lemma stage4:
  "replaceAll (js ''&lt;'') [0x3C] ((if c \<in> {0x27, 0x22, 0x3E} then [c] else escapeChar c) @ r)
   = (if c \<in> {0x27, 0x22, 0x3E, 0x3C} then [c] else escapeChar c) @ replaceAll (js ''&lt;'') [0x3C] r"
  by (simp add: escapeChar_def escape_lits)

lemma stage5:
  "replaceAll (js ''&amp;'') [0x26] ((if c \<in> {0x27, 0x22, 0x3E, 0x3C} then [c] else escapeChar c) @ r)
   = [c] @ replaceAll (js ''&amp;'') [0x26] r"
  by (simp add: escapeChar_def escape_lits)

lemma unescape_escape: "unescapeHtml (escapeHtml s) = s"
  unfolding unescapeHtml_def escapeHtml_chars escape_lits(1-4)
  by (simp only: replaceAll_tokens [where f = escapeChar, OF stage1]
      replaceAll_tokens [OF stage2] replaceAll_tokens [OF stage3]
      replaceAll_tokens [OF stage4] replaceAll_tokens [OF stage5]) simp

section \<open>The renderers\<close>

lemma html_lits:
  \<open>htmlOpen = js ''<div class="timeline">''\<close>
  \<open>htmlItemOpen = js ''<div class="timeline-item">''\<close>
  by (simp_all add: htmlOpen_def htmlItemOpen_def)

lemma seg_distinct:
  "htmlMarker \<noteq> htmlMetaOpen" "htmlMarker \<noteq> htmlDate d" "htmlMarker \<noteq> htmlTitle d"
  "htmlMarker \<noteq> js ''</div>''" "htmlMarker \<noteq> htmlBody d" "htmlMarker \<noteq> js ''</div></div>''"
  "htmlMarker \<noteq> htmlItemOpen" "htmlMarker \<noteq> htmlContentOpen" "htmlMarker \<noteq> htmlStartMarker"
  "htmlMarker \<noteq> htmlOpen"
  "htmlStartMarker \<noteq> htmlMetaOpen" "htmlStartMarker \<noteq> htmlDate d" "htmlStartMarker \<noteq> htmlTitle d"
  "htmlStartMarker \<noteq> js ''</div>''" "htmlStartMarker \<noteq> htmlBody d"
  "htmlStartMarker \<noteq> js ''</div></div>''"
  "htmlStartMarker \<noteq> htmlItemOpen" "htmlStartMarker \<noteq> htmlContentOpen"
  "htmlStartMarker \<noteq> htmlOpen"
  "htmlItemOpen \<noteq> htmlMetaOpen" "htmlItemOpen \<noteq> htmlDate d" "htmlItemOpen \<noteq> htmlTitle d"
  "htmlItemOpen \<noteq> js ''</div>''" "htmlItemOpen \<noteq> htmlBody d"
  "htmlItemOpen \<noteq> js ''</div></div>''" "htmlItemOpen \<noteq> htmlContentOpen"
  "htmlItemOpen \<noteq> htmlOpen"
  by (simp_all add: htmlMarker_def htmlStartMarker_def htmlItemOpen_def htmlMetaOpen_def
      htmlDate_def htmlTitle_def htmlBody_def htmlContentOpen_def htmlOpen_def js_def)

lemma metaHtml_clean:
  "htmlMarker \<notin> set (metaHtml settings e)" "htmlStartMarker \<notin> set (metaHtml settings e)"
  "htmlItemOpen \<notin> set (metaHtml settings e)"
  by (auto simp: metaHtml_def Let_def seg_distinct split: option.splits)

lemma entryHtml_shape:
  assumes "entryHtml md settings path e = Some segs"
  shows "\<exists>rest. segs = [htmlItemOpen] @ (if showMarkers settings then [htmlMarker] else [])
                        @ [htmlContentOpen] @ rest
          \<and> htmlMarker \<notin> set rest \<and> htmlStartMarker \<notin> set rest \<and> htmlItemOpen \<notin> set rest"
proof (cases "trim (body e) = []")
  case True
  with assms have "segs = [htmlItemOpen] @ (if showMarkers settings then [htmlMarker] else [])
      @ [htmlContentOpen] @ (metaHtml settings e @ [js ''</div></div>''])"
    by (auto simp: entryHtml_def Let_def)
  moreover have "htmlMarker \<notin> set (metaHtml settings e @ [js ''</div></div>''])"
    "htmlStartMarker \<notin> set (metaHtml settings e @ [js ''</div></div>''])"
    "htmlItemOpen \<notin> set (metaHtml settings e @ [js ''</div></div>''])"
    by (simp_all add: metaHtml_clean seg_distinct)
  ultimately show ?thesis by blast
next
  case False
  with assms obtain inner where inner: "md (trim (body e)) path = Some inner"
    by (auto simp: entryHtml_def Let_def split: option.splits)
  define tail where "tail = metaHtml settings e
      @ (if length (trim inner) > 0 then [htmlBody (trim inner)] else []) @ [js ''</div></div>'']"
  from assms False inner have "segs = [htmlItemOpen]
      @ (if showMarkers settings then [htmlMarker] else []) @ [htmlContentOpen] @ tail"
    by (auto simp: entryHtml_def Let_def tail_def)
  moreover have "htmlMarker \<notin> set tail" "htmlStartMarker \<notin> set tail" "htmlItemOpen \<notin> set tail"
    by (simp_all add: tail_def metaHtml_clean seg_distinct)
  ultimately show ?thesis by blast
qed

lemma entryHtml_total:
  assumes "trim (body e) \<noteq> [] \<longrightarrow> md (trim (body e)) path \<noteq> None"
  shows "\<exists>segs. entryHtml md settings path e = Some segs"
  using assms by (auto simp: entryHtml_def Let_def split: option.splits)

lemma entriesHtml_shape:
  assumes "\<forall>e\<in>set entries. trim (body e) \<noteq> [] \<longrightarrow> md (trim (body e)) path \<noteq> None"
  shows "\<exists>items. entriesHtml md settings path entries = Some (concat items)
          \<and> length items = length entries
          \<and> (\<forall>it\<in>set items. \<exists>rest.
                it = [htmlItemOpen] @ (if showMarkers settings then [htmlMarker] else [])
                     @ [htmlContentOpen] @ rest
                \<and> htmlMarker \<notin> set rest \<and> htmlStartMarker \<notin> set rest
                \<and> htmlItemOpen \<notin> set rest)"
  using assms
proof (induction entries)
  case Nil
  show ?case by simp
next
  case (Cons e es)
  from Cons.prems entryHtml_total [of e md path settings]
  obtain segs where segs: "entryHtml md settings path e = Some segs" by auto
  from Cons obtain items where items: "entriesHtml md settings path es = Some (concat items)"
    "length items = length es"
    "\<forall>it\<in>set items. \<exists>rest.
        it = [htmlItemOpen] @ (if showMarkers settings then [htmlMarker] else [])
             @ [htmlContentOpen] @ rest
        \<and> htmlMarker \<notin> set rest \<and> htmlStartMarker \<notin> set rest \<and> htmlItemOpen \<notin> set rest"
    by auto
  have "entriesHtml md settings path (e # es) = Some (concat (segs # items))"
    using segs items(1) by simp
  moreover have "length (segs # items) = length (e # es)" using items(2) by simp
  moreover have "\<forall>it\<in>set (segs # items). \<exists>rest.
        it = [htmlItemOpen] @ (if showMarkers settings then [htmlMarker] else [])
             @ [htmlContentOpen] @ rest
        \<and> htmlMarker \<notin> set rest \<and> htmlStartMarker \<notin> set rest \<and> htmlItemOpen \<notin> set rest"
    using entryHtml_shape [OF segs] items(3) by simp
  ultimately show ?case by blast
qed

lemma count_list_concat:
  "(\<forall>it\<in>set items. count_list it x = n) \<Longrightarrow> count_list (concat items) x = n * length items"
  by (induction items) simp_all

lemma count_list_notin: "x \<notin> set xs \<Longrightarrow> count_list xs x = 0"
  by (induction xs) auto

lemma item_counts:
  assumes "it = [htmlItemOpen] @ (if m then [htmlMarker] else []) @ [htmlContentOpen] @ rest"
    "htmlMarker \<notin> set rest" "htmlStartMarker \<notin> set rest"
  shows "count_list it htmlMarker = (if m then 1 else 0)" "count_list it htmlStartMarker = 0"
  using assms seg_distinct(7,8,9,17,18) [of] by (auto simp: count_list_notin)

lemma metaNodes_clean:
  "concat (map (elementsOfClass ''timeline-marker'') (metaNodes settings e)) = []"
  "concat (map (elementsOfClass ''timeline-start-marker'') (metaNodes settings e)) = []"
  by (auto simp: metaNodes_def Let_def createDiv_def createSpan_def setText_def
      split: option.splits)

lemma entryItem_shape:
  assumes "entryItem md settings path e = Some item"
  shows "\<exists>content. item = Element ''div'' ''timeline-item'' []
              ((if showMarkers settings
                then [Element ''div'' ''timeline-marker'' [(''aria-hidden'', ''true'')] []]
                else []) @ [content])
          \<and> cls content = ''timeline-content''
          \<and> elementsOfClass ''timeline-marker'' content = []
          \<and> elementsOfClass ''timeline-start-marker'' content = []"
proof (cases "trim (body e) = []")
  case True
  with assms show ?thesis
    by (auto simp: entryItem_def Let_def createDiv_def metaNodes_clean)
next
  case False
  with assms obtain r where r: "md (trim (body e)) path = Some r"
    by (auto simp: entryItem_def Let_def split: option.splits)
  with assms False show ?thesis
    by (auto simp: entryItem_def Let_def createDiv_def metaNodes_clean)
qed

lemma entryItem_total:
  assumes "trim (body e) \<noteq> [] \<longrightarrow> md (trim (body e)) path \<noteq> None"
  shows "\<exists>item. entryItem md settings path e = Some item"
  using assms by (auto simp: entryItem_def Let_def split: option.splits)

lemma entryItems_shape:
  assumes "\<forall>e\<in>set entries. trim (body e) \<noteq> [] \<longrightarrow> md (trim (body e)) path \<noteq> None"
  shows "\<exists>items. entryItems md settings path entries = Some items
          \<and> length items = length entries
          \<and> (\<forall>it\<in>set items. \<exists>content.
                it = Element ''div'' ''timeline-item'' []
                  ((if showMarkers settings
                    then [Element ''div'' ''timeline-marker'' [(''aria-hidden'', ''true'')] []]
                    else []) @ [content])
                \<and> cls content = ''timeline-content''
                \<and> elementsOfClass ''timeline-marker'' content = []
                \<and> elementsOfClass ''timeline-start-marker'' content = [])"
  using assms
proof (induction entries)
  case Nil
  show ?case by simp
next
  case (Cons e es)
  from Cons.prems entryItem_total [of e md path settings]
  obtain item where item: "entryItem md settings path e = Some item" by auto
  from Cons obtain items where items: "entryItems md settings path es = Some items"
    "length items = length es"
    "\<forall>it\<in>set items. \<exists>content.
                it = Element ''div'' ''timeline-item'' []
                  ((if showMarkers settings
                    then [Element ''div'' ''timeline-marker'' [(''aria-hidden'', ''true'')] []]
                    else []) @ [content])
                \<and> cls content = ''timeline-content''
                \<and> elementsOfClass ''timeline-marker'' content = []
                \<and> elementsOfClass ''timeline-start-marker'' content = []"
    by auto
  have "entryItems md settings path (e # es) = Some (item # items)"
    using item items(1) by simp
  moreover have "length (item # items) = length (e # es)" using items(2) by simp
  moreover have "\<forall>it\<in>set (item # items). \<exists>content.
                it = Element ''div'' ''timeline-item'' []
                  ((if showMarkers settings
                    then [Element ''div'' ''timeline-marker'' [(''aria-hidden'', ''true'')] []]
                    else []) @ [content])
                \<and> cls content = ''timeline-content''
                \<and> elementsOfClass ''timeline-marker'' content = []
                \<and> elementsOfClass ''timeline-start-marker'' content = []"
    using entryItem_shape [OF item] items(3) by simp
  ultimately show ?case by blast
qed

lemma length_concat_const:
  "(\<forall>it\<in>set items. length (f it) = n) \<Longrightarrow> length (concat (map f items)) = n * length items"
  by (induction items) simp_all

text \<open>
  Claim C6. The empty string and every string of white space only parse to the empty
  sequence of entries; and for the empty sequence each renderer emits the empty indicator
  with the message \<open>No timeline entries found.\<close> and nothing else: the static output is
  the opening segment and the indicator (which closes the timeline), the live container
  gets the indicator as its one new child.
\<close>

theorem empty_source_empty_indicator:
  \<open>((\<forall>c\<in>set source. isWhiteSpace c) \<longrightarrow>
      parseTimelineSource source = []
      \<and> renderTimelineHtml md source settings path
          = Some (js ''<div class="timeline"><div class="timeline-empty">No timeline entries found.</div></div>''))
   \<and> renderEntriesHtml md [] settings path = Some [htmlOpen, htmlEmpty]
   \<and> renderTimelineEntries md' [] (Element t c a ks) path settings
       = Some (Element t c a
           (ks @ [Element ''div'' ''timeline-empty'' [] [Text (js ''No timeline entries found.'')]]))\<close>
proof -
  have p: "parseTimelineSource source = []" if "\<forall>c\<in>set source. isWhiteSpace c"
    using that by (simp add: parseTimelineSource_def trim_eq_Nil_iff)
  have r: "renderEntriesHtml md [] settings path = Some [htmlOpen, htmlEmpty]"
    by (simp add: renderEntriesHtml_def)
  have c: \<open>concat [htmlOpen, htmlEmpty]
      = js ''<div class="timeline"><div class="timeline-empty">No timeline entries found.</div></div>''\<close>
    by (simp add: htmlOpen_def htmlEmpty_def js_def)
  have l: "renderTimelineEntries md' [] (Element t c a ks) path settings
       = Some (Element t c a
           (ks @ [Element ''div'' ''timeline-empty'' [] [Text (js ''No timeline entries found.'')]]))"
    by (simp add: renderTimelineEntries_def createDiv_def setText_def js_def)
  from p r c l show ?thesis by (simp add: renderTimelineHtml_def)
qed

theorem empty_source_empty_indicator_witness:
  \<open>list_all isWhiteSpace (js ''   \<newline>\<newline>  '')
   \<and> parseTimelineSource (js ''   \<newline>\<newline>  '') = []
   \<and> parseTimelineSource (js '''') = []
   \<and> renderTimelineHtml (\<lambda>b p. Some b) (js ''   \<newline>\<newline>  '')
        \<lparr>showMarkers = True, defaultDateLabel = js ''Date''\<rparr> (js ''note.md'')
       = Some (js ''<div class="timeline"><div class="timeline-empty">No timeline entries found.</div></div>'')
   \<and> renderTimelineEntries (\<lambda>b p. Some b) [] (Element ''div'' ''timeline'' [] []) (js ''note.md'')
        \<lparr>showMarkers = True, defaultDateLabel = js ''Date''\<rparr>
       = Some (Element ''div'' ''timeline'' []
           [Element ''div'' ''timeline-empty'' [] [Text (js ''No timeline entries found.'')]])\<close>
proof -
  have h: "\<forall>c\<in>set (js ''   \<newline>\<newline>  ''). isWhiteSpace c" "\<forall>c\<in>set (js ''''). isWhiteSpace c"
    by (simp_all add: js_def isWhiteSpace_def)
  from h
    empty_source_empty_indicator [of "js ''   \<newline>\<newline>  ''" "\<lambda>b p. Some b"
      "\<lparr>showMarkers = True, defaultDateLabel = js ''Date''\<rparr>" "js ''note.md''"
      "\<lambda>b p. Some b" "''div''" "''timeline''" "[]" "[]"]
    empty_source_empty_indicator [of "js ''''" "\<lambda>b p. Some b"
      "\<lparr>showMarkers = True, defaultDateLabel = js ''Date''\<rparr>" "js ''note.md''"
      "\<lambda>b p. Some b" "''div''" "''timeline''" "[]" "[]"]
  show ?thesis by (simp add: list_all_iff)
qed

text \<open>
  Claim C8. For every string, \<open>escapeHtml\<close> replaces each of the five reserved characters
  by its entity, so the escaped text has no raw reserved character; decoding the escaped
  text gives the original string back; and the date and title texts are embedded in the
  static meta segments only through \<open>escapeHtml\<close>.
\<close>

theorem escapeHtml_roundtrip:
  \<open>escapeHtml s = concat (map escapeChar s)
   \<and> noRawReserved (escapeHtml s)
   \<and> unescapeHtml (escapeHtml s) = s
   \<and> set (metaHtml settings entry)
       \<subseteq> {htmlMetaOpen, js ''</div>''}
         \<union> {js ''<span class="timeline-date">'' @ escapeHtml d @ js ''</span>'' | d.
              dateText settings entry = Some d}
         \<union> {js ''<span class="timeline-title">'' @ escapeHtml t @ js ''</span>'' | t.
              title entry = Some t}\<close>
proof -
  have \<open>set (metaHtml settings entry)
       \<subseteq> {htmlMetaOpen, js ''</div>''}
         \<union> {js ''<span class="timeline-date">'' @ escapeHtml d @ js ''</span>'' | d.
              dateText settings entry = Some d}
         \<union> {js ''<span class="timeline-title">'' @ escapeHtml t @ js ''</span>'' | t.
              title entry = Some t}\<close>
    by (auto simp: metaHtml_def Let_def htmlDate_def htmlTitle_def split: option.splits if_splits)
  then show ?thesis
    using escapeHtml_chars noRaw_escapeHtml unescape_escape by simp
qed

theorem escapeHtml_roundtrip_witness:
  \<open>escapeHtml (js ''<b>"x"</b>'') = js ''&lt;b&gt;&quot;x&quot;&lt;/b&gt;''
   \<and> noRawReserved (escapeHtml (js ''<b>"x"</b>''))
   \<and> unescapeHtml (escapeHtml (js ''<b>"x"</b>'')) = js ''<b>"x"</b>''\<close>
proof -
  have h: \<open>concat (map escapeChar (js ''<b>"x"</b>'')) = js ''&lt;b&gt;&quot;x&quot;&lt;/b&gt;''\<close>
    by code_simp
  note t = escapeHtml_roundtrip [of \<open>js ''<b>"x"</b>''\<close>
      "\<lparr>showMarkers = True, defaultDateLabel = []\<rparr>" "\<lparr>date = None, title = None, body = []\<rparr>"]
  from t have a: \<open>escapeHtml (js ''<b>"x"</b>'') = concat (map escapeChar (js ''<b>"x"</b>''))\<close>
    by (rule conjunct1)
  from t have b: \<open>noRawReserved (escapeHtml (js ''<b>"x"</b>''))\<close>
    by (rule conjunct1 [OF conjunct2])
  from t have c: \<open>unescapeHtml (escapeHtml (js ''<b>"x"</b>'')) = js ''<b>"x"</b>''\<close>
    by (rule conjunct1 [OF conjunct2 [OF conjunct2]])
  from a h have \<open>escapeHtml (js ''<b>"x"</b>'') = js ''&lt;b&gt;&quot;x&quot;&lt;/b&gt;''\<close>
    by (rule trans)
  with b c show ?thesis by blast
qed

text \<open>
  Claim C1 says that each renderer includes a body block for an entry only if the trimmed
  body of the entry is not empty, and that both outputs have the same sections. For the
  source \<open>T\<close>, one entry with a title and an empty body, the static renderer emits no
  body block; the live renderer creates the element of class \<open>timeline-body\<close> all the
  same, with no children.
\<close>

theorem body_block_renderers_differ:
  \<open>parseTimelineSource (js ''T'') = [\<lparr>date = None, title = Some (js ''T''), body = []\<rparr>]
   \<and> renderTimelineHtml (\<lambda>b p. None) (js ''T'')
        \<lparr>showMarkers = False, defaultDateLabel = []\<rparr> (js ''note.md'')
       = Some (js ''<div class="timeline"><div class="timeline-item"><div class="timeline-content"><div class="timeline-meta"><span class="timeline-title">T</span></div></div></div></div>'')
   \<and> renderTimelineEntries (\<lambda>b p. None) (parseTimelineSource (js ''T''))
        (Element ''div'' ''timeline'' [] []) (js ''note.md'')
        \<lparr>showMarkers = False, defaultDateLabel = []\<rparr>
       = Some (Element ''div'' ''timeline'' []
           [Element ''div'' ''timeline-item'' []
             [Element ''div'' ''timeline-content'' []
               [Element ''div'' ''timeline-meta'' []
                  [Element ''span'' ''timeline-title'' [] [Text (js ''T'')]],
                Element ''div'' ''timeline-body'' [] []]]] :: unit node)\<close>
  by code_simp

section \<open>Markers\<close>

lemma live_item_counts:
  assumes "it = Element ''div'' ''timeline-item'' []
      ((if m then [Element ''div'' ''timeline-marker'' [(''aria-hidden'', ''true'')] []] else [])
       @ [content])"
    "elementsOfClass ''timeline-marker'' content = []"
    "elementsOfClass ''timeline-start-marker'' content = []"
  shows "length (elementsOfClass ''timeline-marker'' it) = (if m then 1 else 0)"
    "length (elementsOfClass ''timeline-start-marker'' it) = 0"
  using assms by auto

text \<open>
  Claim C7. For a sequence of entries that is not empty, and when the host renders every
  body: without markers neither output has a start marker or an item marker; with markers
  each output has exactly one start marker, before the first item, and exactly one item
  marker in each item, first in the item and before its content. Static: the segments
  are the opening, the start marker if shown, the segments of the items, the closing; the
  segments of an item start with the item opening, the marker if shown, the content
  opening, and no marker follows. Live: the new children of the container are the start
  marker if shown and one item per entry, whose children are the marker if shown and the
  content.
\<close>

theorem marker_toggle:
  assumes ne: "entries \<noteq> []"
    and ok: "\<forall>e\<in>set entries. trim (body e) \<noteq> [] \<longrightarrow> md (trim (body e)) path \<noteq> None"
    and ok': "\<forall>e\<in>set entries. trim (body e) \<noteq> [] \<longrightarrow> md' (trim (body e)) path \<noteq> None"
  shows
    "(\<exists>segs items.
        renderEntriesHtml md entries settings path = Some segs
        \<and> segs = [htmlOpen] @ (if showMarkers settings then [htmlStartMarker] else [])
                 @ concat items @ [js ''</div>'']
        \<and> length items = length entries
        \<and> (\<forall>it\<in>set items. \<exists>rest.
              it = [htmlItemOpen] @ (if showMarkers settings then [htmlMarker] else [])
                   @ [htmlContentOpen] @ rest
              \<and> htmlMarker \<notin> set rest \<and> htmlStartMarker \<notin> set rest
              \<and> htmlItemOpen \<notin> set rest)
        \<and> count_list segs htmlStartMarker = (if showMarkers settings then 1 else 0)
        \<and> count_list segs htmlMarker = (if showMarkers settings then length entries else 0))
     \<and> (\<exists>new items.
        renderTimelineEntries md' entries (Element t c a ks) path settings
          = Some (Element t c a (ks @ new))
        \<and> new = (if showMarkers settings
                  then [Element ''div'' ''timeline-start-marker'' [(''aria-hidden'', ''true'')] []]
                  else []) @ items
        \<and> length items = length entries
        \<and> (\<forall>it\<in>set items. \<exists>content.
              it = Element ''div'' ''timeline-item'' []
                ((if showMarkers settings
                  then [Element ''div'' ''timeline-marker'' [(''aria-hidden'', ''true'')] []]
                  else []) @ [content])
              \<and> cls content = ''timeline-content''
              \<and> elementsOfClass ''timeline-marker'' content = []
              \<and> elementsOfClass ''timeline-start-marker'' content = [])
        \<and> length (concat (map (elementsOfClass ''timeline-start-marker'') new))
            = (if showMarkers settings then 1 else 0)
        \<and> length (concat (map (elementsOfClass ''timeline-marker'') new))
            = (if showMarkers settings then length entries else 0))"
proof (rule conjI)
  from ok entriesHtml_shape [where md = md and path = path and entries = entries
      and settings = settings]
  obtain items where items: "entriesHtml md settings path entries = Some (concat items)"
    "length items = length entries"
    "\<forall>it\<in>set items. \<exists>rest.
        it = [htmlItemOpen] @ (if showMarkers settings then [htmlMarker] else [])
             @ [htmlContentOpen] @ rest
        \<and> htmlMarker \<notin> set rest \<and> htmlStartMarker \<notin> set rest \<and> htmlItemOpen \<notin> set rest"
    by blast
  define segs where "segs = [htmlOpen] @ (if showMarkers settings then [htmlStartMarker] else [])
      @ concat items @ [js ''</div>'']"
  have r: "renderEntriesHtml md entries settings path = Some segs"
    using ne items(1) by (simp add: renderEntriesHtml_def segs_def)
  have c1: "\<forall>it\<in>set items. count_list it htmlMarker = (if showMarkers settings then 1 else 0)"
    using items(3) item_counts(1) by blast
  have c2: "\<forall>it\<in>set items. count_list it htmlStartMarker = 0"
    using items(3) item_counts(2) by blast
  have m: "count_list segs htmlMarker = (if showMarkers settings then length entries else 0)"
    using count_list_concat [OF c1] items(2) seg_distinct(4,9,10)
    by (simp add: segs_def)
  have s: "count_list segs htmlStartMarker = (if showMarkers settings then 1 else 0)"
    using count_list_concat [OF c2] seg_distinct(14,19)
    by (simp add: segs_def)
  from r items(2,3) m s segs_def
  show "\<exists>segs items.
        renderEntriesHtml md entries settings path = Some segs
        \<and> segs = [htmlOpen] @ (if showMarkers settings then [htmlStartMarker] else [])
                 @ concat items @ [js ''</div>'']
        \<and> length items = length entries
        \<and> (\<forall>it\<in>set items. \<exists>rest.
              it = [htmlItemOpen] @ (if showMarkers settings then [htmlMarker] else [])
                   @ [htmlContentOpen] @ rest
              \<and> htmlMarker \<notin> set rest \<and> htmlStartMarker \<notin> set rest
              \<and> htmlItemOpen \<notin> set rest)
        \<and> count_list segs htmlStartMarker = (if showMarkers settings then 1 else 0)
        \<and> count_list segs htmlMarker = (if showMarkers settings then length entries else 0)"
    by blast
next
  from ok' entryItems_shape [where md = md' and path = path and entries = entries
      and settings = settings]
  obtain items where items: "entryItems md' settings path entries = Some items"
    "length items = length entries"
    "\<forall>it\<in>set items. \<exists>content.
        it = Element ''div'' ''timeline-item'' []
          ((if showMarkers settings
            then [Element ''div'' ''timeline-marker'' [(''aria-hidden'', ''true'')] []]
            else []) @ [content])
        \<and> cls content = ''timeline-content''
        \<and> elementsOfClass ''timeline-marker'' content = []
        \<and> elementsOfClass ''timeline-start-marker'' content = []"
    by blast
  define new where "new = (if showMarkers settings
      then [Element ''div'' ''timeline-start-marker'' [(''aria-hidden'', ''true'')] []]
      else []) @ items"
  have r: "renderTimelineEntries md' entries (Element t c a ks) path settings
          = Some (Element t c a (ks @ new))"
    using ne items(1) by (simp add: renderTimelineEntries_def new_def createDiv_def)
  have c1: "\<forall>it\<in>set items. length (elementsOfClass ''timeline-marker'' it)
      = (if showMarkers settings then 1 else 0)"
    using items(3) live_item_counts(1) by blast
  have c2: "\<forall>it\<in>set items. length (elementsOfClass ''timeline-start-marker'' it) = 0"
    using items(3) live_item_counts(2) by blast
  have m: "length (concat (map (elementsOfClass ''timeline-marker'') new))
      = (if showMarkers settings then length entries else 0)"
    using length_concat_const [OF c1] items(2) by (simp add: new_def)
  have s: "length (concat (map (elementsOfClass ''timeline-start-marker'') new))
      = (if showMarkers settings then 1 else 0)"
    using length_concat_const [OF c2] by (simp add: new_def)
  from r items(2,3) m s new_def
  show "\<exists>new items.
        renderTimelineEntries md' entries (Element t c a ks) path settings
          = Some (Element t c a (ks @ new))
        \<and> new = (if showMarkers settings
                  then [Element ''div'' ''timeline-start-marker'' [(''aria-hidden'', ''true'')] []]
                  else []) @ items
        \<and> length items = length entries
        \<and> (\<forall>it\<in>set items. \<exists>content.
              it = Element ''div'' ''timeline-item'' []
                ((if showMarkers settings
                  then [Element ''div'' ''timeline-marker'' [(''aria-hidden'', ''true'')] []]
                  else []) @ [content])
              \<and> cls content = ''timeline-content''
              \<and> elementsOfClass ''timeline-marker'' content = []
              \<and> elementsOfClass ''timeline-start-marker'' content = [])
        \<and> length (concat (map (elementsOfClass ''timeline-start-marker'') new))
            = (if showMarkers settings then 1 else 0)
        \<and> length (concat (map (elementsOfClass ''timeline-marker'') new))
            = (if showMarkers settings then length entries else 0)"
    by blast
qed

theorem marker_toggle_witness:
  "(\<exists>segs.
      renderEntriesHtml (\<lambda>b p. Some b)
        [\<lparr>date = None, title = Some (js ''a''), body = js ''b''\<rparr>,
         \<lparr>date = None, title = None, body = js ''c''\<rparr>]
        \<lparr>showMarkers = True, defaultDateLabel = js ''Date''\<rparr> (js ''note.md'') = Some segs
      \<and> count_list segs htmlStartMarker = 1 \<and> count_list segs htmlMarker = 2)
   \<and> (\<exists>new.
      renderTimelineEntries (\<lambda>b p. Some b)
        [\<lparr>date = None, title = Some (js ''a''), body = js ''b''\<rparr>,
         \<lparr>date = None, title = None, body = js ''c''\<rparr>]
        (Element ''div'' ''timeline'' [] []) (js ''note.md'')
        \<lparr>showMarkers = True, defaultDateLabel = js ''Date''\<rparr>
        = Some (Element ''div'' ''timeline'' [] new)
      \<and> length (concat (map (elementsOfClass ''timeline-start-marker'') new)) = 1
      \<and> length (concat (map (elementsOfClass ''timeline-marker'') new)) = 2)"
proof -
  let ?E = "[\<lparr>date = None, title = Some (js ''a''), body = js ''b''\<rparr>,
             \<lparr>date = None, title = None, body = js ''c''\<rparr>]"
  let ?S = "\<lparr>showMarkers = True, defaultDateLabel = js ''Date''\<rparr>"
  let ?md = "\<lambda>(b :: jsstring) (p :: jsstring). Some b"
  have h1: "?E \<noteq> []" by simp
  have h2: "\<forall>e\<in>set ?E. trim (body e) \<noteq> [] \<longrightarrow> ?md (trim (body e)) (js ''note.md'') \<noteq> None"
    by simp
  note t = marker_toggle [where entries = ?E and md = ?md and md' = ?md and path = "js ''note.md''"
      and settings = ?S and t = "''div''" and c = "''timeline''" and a = "[]" and ks = "[]",
      OF h1 h2 h2]
  from t obtain segs where segs: "renderEntriesHtml ?md ?E ?S (js ''note.md'') = Some segs"
    "count_list segs htmlStartMarker = (if showMarkers ?S then 1 else 0)"
    "count_list segs htmlMarker = (if showMarkers ?S then length ?E else 0)"
    by blast
  from t obtain new where new: "renderTimelineEntries ?md ?E (Element ''div'' ''timeline'' [] [])
        (js ''note.md'') ?S = Some (Element ''div'' ''timeline'' [] ([] @ new))"
    "length (concat (map (elementsOfClass ''timeline-start-marker'') new))
       = (if showMarkers ?S then 1 else 0)"
    "length (concat (map (elementsOfClass ''timeline-marker'') new))
       = (if showMarkers ?S then length ?E else 0)"
    by blast
  from segs have 1: "\<exists>segs. renderEntriesHtml ?md ?E ?S (js ''note.md'') = Some segs
      \<and> count_list segs htmlStartMarker = 1 \<and> count_list segs htmlMarker = 2"
    by simp
  from new have 2: "\<exists>new. renderTimelineEntries ?md ?E (Element ''div'' ''timeline'' [] [])
        (js ''note.md'') ?S = Some (Element ''div'' ''timeline'' [] new)
      \<and> length (concat (map (elementsOfClass ''timeline-start-marker'') new)) = 1
      \<and> length (concat (map (elementsOfClass ''timeline-marker'') new)) = 2"
    by simp
  from 1 2 show ?thesis by (rule conjI)
qed

section \<open>The date shown\<close>

lemma date_prefix:
  \<open>prefix (js ''<span class="timeline-date">'') (htmlDate d)\<close>
  \<open>\<not> prefix (js ''<span class="timeline-date">'') (htmlTitle d)\<close>
  \<open>\<not> prefix (js ''<span class="timeline-date">'') htmlMetaOpen\<close>
  \<open>\<not> prefix (js ''<span class="timeline-date">'') htmlItemOpen\<close>
  \<open>\<not> prefix (js ''<span class="timeline-date">'') htmlMarker\<close>
  \<open>\<not> prefix (js ''<span class="timeline-date">'') htmlContentOpen\<close>
  \<open>\<not> prefix (js ''<span class="timeline-date">'') (htmlBody d)\<close>
  \<open>\<not> prefix (js ''<span class="timeline-date">'') (js ''</div>'')\<close>
  \<open>\<not> prefix (js ''<span class="timeline-date">'') (js ''</div></div>'')\<close>
  by (simp_all add: htmlDate_def htmlTitle_def htmlMetaOpen_def htmlItemOpen_def htmlMarker_def
      htmlContentOpen_def htmlBody_def js_def)

lemma dateText_resolved:
  "date e \<noteq> Some [] \<Longrightarrow> truthy (dateText settings e) \<longleftrightarrow> resolvedDate settings e \<noteq> None"
  "dateText settings e = resolvedDate settings e"
  by (auto simp: dateText_def resolvedDate_def Let_def split: option.splits)

lemma metaHtml_date:
  assumes "date e \<noteq> Some []"
  shows "case resolvedDate settings e of
           None \<Rightarrow> dateSegments (metaHtml settings e) = []
         | Some d \<Rightarrow> dateSegments (metaHtml settings e) = [htmlDate d]
                     \<and> (\<exists>post. metaHtml settings e = htmlMetaOpen # htmlDate d # post)"
proof (cases "resolvedDate settings e")
  case None
  then have "dateText settings e = None" by (simp add: dateText_resolved)
  with None show ?thesis
    by (auto simp: metaHtml_def dateSegments_def date_prefix split: option.splits)
next
  case (Some d)
  with assms have d: "dateText settings e = Some d" "d \<noteq> []"
    by (auto simp: dateText_resolved resolvedDate_def split: option.splits if_splits)
  with Some show ?thesis
    by (auto simp: metaHtml_def dateSegments_def date_prefix split: option.splits)
qed

lemma entryHtml_parts:
  assumes "entryHtml md settings path e = Some segs"
  shows "\<exists>pre post. segs = pre @ metaHtml settings e @ post
          \<and> dateSegments pre = [] \<and> dateSegments post = []"
proof (cases "trim (body e) = []")
  case True
  with assms have "segs = ([htmlItemOpen] @ (if showMarkers settings then [htmlMarker] else [])
      @ [htmlContentOpen]) @ metaHtml settings e @ [js ''</div></div>'']"
    by (auto simp: entryHtml_def Let_def)
  moreover have "dateSegments ([htmlItemOpen] @ (if showMarkers settings then [htmlMarker] else [])
      @ [htmlContentOpen]) = []" "dateSegments [js ''</div></div>''] = []"
    by (simp_all add: dateSegments_def date_prefix)
  ultimately show ?thesis by blast
next
  case False
  with assms obtain inner where inner: "md (trim (body e)) path = Some inner"
    by (auto simp: entryHtml_def Let_def split: option.splits)
  define post where "post = (if length (trim inner) > 0 then [htmlBody (trim inner)] else [])
      @ [js ''</div></div>'']"
  from assms False inner have "segs = ([htmlItemOpen]
      @ (if showMarkers settings then [htmlMarker] else []) @ [htmlContentOpen])
      @ metaHtml settings e @ post"
    by (auto simp: entryHtml_def Let_def post_def)
  moreover have "dateSegments ([htmlItemOpen] @ (if showMarkers settings then [htmlMarker] else [])
      @ [htmlContentOpen]) = []" "dateSegments post = []"
    by (simp_all add: dateSegments_def date_prefix post_def)
  ultimately show ?thesis by blast
qed

lemma dateSegments_append: "dateSegments (a @ b) = dateSegments a @ dateSegments b"
  by (simp add: dateSegments_def)

lemma static_shows_date:
  assumes wf: "date e \<noteq> Some []" and segs: "entryHtml md settings path e = Some segs"
  shows "showsDateHtml segs (resolvedDate settings e)"
proof -
  from entryHtml_parts [OF segs] obtain pre post where p: "segs = pre @ metaHtml settings e @ post"
    "dateSegments pre = []" "dateSegments post = []" by blast
  show ?thesis
  proof (cases "resolvedDate settings e")
    case None
    with metaHtml_date [OF wf, of settings] p show ?thesis
      by (simp add: dateSegments_append)
  next
    case (Some d)
    with metaHtml_date [OF wf, of settings] obtain rest where
      m: "dateSegments (metaHtml settings e) = [htmlDate d]"
      "metaHtml settings e = htmlMetaOpen # htmlDate d # rest" by auto
    from p m(2) have "segs = pre @ [htmlMetaOpen, htmlDate d] @ (rest @ post)" by simp
    then have "sublist [htmlMetaOpen, htmlDate d] segs" unfolding sublist_def by blast
    with Some p m(1) show ?thesis by (simp add: dateSegments_append)
  qed
qed

lemma live_shows_date:
  assumes wf: "date e \<noteq> Some []" and item: "entryItem md settings path e = Some item"
  shows "showsDateNode item (resolvedDate settings e)"
proof (cases "resolvedDate settings e")
  case None
  then have "dateText settings e = None" by (simp add: dateText_resolved)
  with None item show ?thesis
    by (auto simp: entryItem_def metaNodes_def Let_def createDiv_def createSpan_def setText_def
        split: option.splits if_splits)
next
  case (Some d)
  with wf have d: "dateText settings e = Some d" "d \<noteq> []"
    by (auto simp: dateText_resolved resolvedDate_def split: option.splits if_splits)
  with Some item show ?thesis
    by (auto simp: entryItem_def metaNodes_def Let_def createDiv_def createSpan_def setText_def
        split: option.splits if_splits)
qed

text \<open>
  Claim C9. For an entry whose date, when present, is not the empty string (as for every
  entry of the segmenter), for every configuration and when the host renders the body,
  each renderer shows in the meta block the entry's own date if present, else the trimmed
  default date label if that is not empty, else no date. So an entry without a date shows
  \<open>Date\<close> under the default label \<open>Date\<close>, and an entry with a date shows its own
  date whatever the label.
\<close>

theorem displayed_date:
  assumes wf: "date e \<noteq> Some []"
    and ok: "trim (body e) \<noteq> [] \<longrightarrow> md (trim (body e)) path \<noteq> None"
    and ok': "trim (body e) \<noteq> [] \<longrightarrow> md' (trim (body e)) path \<noteq> None"
  shows "(\<exists>segs. entryHtml md settings path e = Some segs
            \<and> showsDateHtml segs (resolvedDate settings e))
       \<and> (\<exists>item. entryItem md' settings path e = Some item
            \<and> showsDateNode item (resolvedDate settings e))
       \<and> (date e = None \<and> defaultDateLabel settings = js ''Date''
            \<longrightarrow> resolvedDate settings e = Some (js ''Date''))
       \<and> (\<forall>d. date e = Some d \<longrightarrow> resolvedDate settings e = Some d)"
proof (intro conjI)
  from ok entryHtml_total [where md = md and path = path and e = e and settings = settings]
  obtain segs where "entryHtml md settings path e = Some segs"
    by blast
  with static_shows_date [OF wf] show "\<exists>segs. entryHtml md settings path e = Some segs
            \<and> showsDateHtml segs (resolvedDate settings e)" by blast
next
  from ok' entryItem_total [where md = md' and path = path and e = e and settings = settings]
  obtain item where "entryItem md' settings path e = Some item"
    by blast
  with live_shows_date [OF wf] show "\<exists>item. entryItem md' settings path e = Some item
            \<and> showsDateNode item (resolvedDate settings e)" by blast
next
  have "trim (js ''Date'') = js ''Date''" by code_simp
  moreover have "js ''Date'' \<noteq> []" by (simp add: js_def)
  ultimately show "date e = None \<and> defaultDateLabel settings = js ''Date''
            \<longrightarrow> resolvedDate settings e = Some (js ''Date'')"
    by (simp add: resolvedDate_def)
next
  show "\<forall>d. date e = Some d \<longrightarrow> resolvedDate settings e = Some d"
    by (simp add: resolvedDate_def)
qed

theorem displayed_date_witness:
  "(\<exists>segs. entryHtml (\<lambda>b p. Some b) \<lparr>showMarkers = True, defaultDateLabel = js ''Date''\<rparr>
        (js ''note.md'') \<lparr>date = None, title = Some (js ''Launch''), body = js ''text''\<rparr> = Some segs
      \<and> showsDateHtml segs (Some (js ''Date'')))
   \<and> (\<exists>item. entryItem (\<lambda>b p. Some b) \<lparr>showMarkers = True, defaultDateLabel = js ''Date''\<rparr>
        (js ''note.md'') \<lparr>date = None, title = Some (js ''Launch''), body = js ''text''\<rparr> = Some item
      \<and> showsDateNode item (Some (js ''Date'')))
   \<and> (\<exists>segs. entryHtml (\<lambda>b p. Some b) \<lparr>showMarkers = True, defaultDateLabel = js ''Date''\<rparr>
        (js ''note.md'') \<lparr>date = Some (js ''2024''), title = None, body = js ''text''\<rparr> = Some segs
      \<and> showsDateHtml segs (Some (js ''2024'')))
   \<and> (\<exists>item. entryItem (\<lambda>b p. Some b) \<lparr>showMarkers = True, defaultDateLabel = js ''Date''\<rparr>
        (js ''note.md'') \<lparr>date = Some (js ''2024''), title = None, body = js ''text''\<rparr> = Some item
      \<and> showsDateNode item (Some (js ''2024'')))"
proof -
  let ?S = "\<lparr>showMarkers = True, defaultDateLabel = js ''Date''\<rparr>"
  let ?e0 = "\<lparr>date = None, title = Some (js ''Launch''), body = js ''text''\<rparr>"
  let ?e1 = "\<lparr>date = Some (js ''2024''), title = None, body = js ''text''\<rparr>"
  let ?md = "\<lambda>(b :: jsstring) (p :: jsstring). Some b"
  have w0: "date ?e0 \<noteq> Some []" and w1: "date ?e1 \<noteq> Some []"
    by (simp_all add: js_def)
  have k0: "trim (body ?e0) \<noteq> [] \<longrightarrow> ?md (trim (body ?e0)) (js ''note.md'') \<noteq> None"
    and k1: "trim (body ?e1) \<noteq> [] \<longrightarrow> ?md (trim (body ?e1)) (js ''note.md'') \<noteq> None"
    by simp_all
  note t0 = displayed_date [where e = ?e0 and md = ?md and md' = ?md and path = "js ''note.md''"
      and settings = ?S, OF w0 k0 k0]
  note t1 = displayed_date [where e = ?e1 and md = ?md and md' = ?md and path = "js ''note.md''"
      and settings = ?S, OF w1 k1 k1]
  from t0 have r0: "resolvedDate ?S ?e0 = Some (js ''Date'')" by simp
  from t1 have r1: "resolvedDate ?S ?e1 = Some (js ''2024'')" by simp
  from t0 have a: "\<exists>segs. entryHtml ?md ?S (js ''note.md'') ?e0 = Some segs
      \<and> showsDateHtml segs (Some (js ''Date''))"
    unfolding r0 by (rule conjunct1)
  from t0 have b: "\<exists>item. entryItem ?md ?S (js ''note.md'') ?e0 = Some item
      \<and> showsDateNode item (Some (js ''Date''))"
    unfolding r0 by (rule conjunct1 [OF conjunct2])
  from t1 have c: "\<exists>segs. entryHtml ?md ?S (js ''note.md'') ?e1 = Some segs
      \<and> showsDateHtml segs (Some (js ''2024''))"
    unfolding r1 by (rule conjunct1)
  from t1 have d: "\<exists>item. entryItem ?md ?S (js ''note.md'') ?e1 = Some item
      \<and> showsDateNode item (Some (js ''2024''))"
    unfolding r1 by (rule conjunct1 [OF conjunct2])
  from a b c d show ?thesis by (intro conjI)
qed

end
